theory Spec2Isabelle
  imports Main
begin

section \<open>Strings and JSON values of the JavaScript side\<close>

text \<open>
  A JavaScript string is a sequence of UTF-16 code units; a code unit is modelled by its
  number. \<open>js\<close> turns an ASCII literal into that representation.
\<close>

type_synonym jstring = "nat list"

definition js :: "string \<Rightarrow> jstring" where
  "js = map of_char"

text \<open>
  \<open>String.prototype.trim\<close> strips the ECMAScript WhiteSpace and LineTerminator code
  points from both ends: TAB, LF, VT, FF, CR, SP, NBSP, U+1680, U+2000 to U+200A, U+2028,
  U+2029, U+202F, U+205F, U+3000 and U+FEFF.
\<close>

definition is_whitespace :: "nat \<Rightarrow> bool" where
  "is_whitespace c \<longleftrightarrow>
     c \<in> set [9, 10, 11, 12, 13, 32, 160, 5760, 8232, 8233, 8239, 8287, 12288, 65279]
     \<or> (8192 \<le> c \<and> c \<le> 8202)"

definition trim :: "jstring \<Rightarrow> jstring" where
  "trim t = rev (dropWhile is_whitespace (rev (dropWhile is_whitespace t)))"

datatype json =
    JNull
  | JBool bool
  | JNum int
  | JStr jstring
  | JArr "json list"
  | JObj "(jstring \<times> json) list"

datatype js_error = TypeError | SyntaxError | FetchError

text \<open>
  Reading a property \<open>v.name\<close>. Only the names \<open>transcript\<close> and \<open>isWaitIntent\<close> are
  read by the code, which no string, number, boolean or array has; \<open>None\<close> is
  \<open>undefined\<close>. Reading a property of \<open>null\<close> throws.
\<close>

fun get_prop :: "json \<Rightarrow> jstring \<Rightarrow> js_error + json option" where
  "get_prop JNull k = Inl TypeError"
| "get_prop (JObj kvs) k = Inr (map_of kvs k)"
| "get_prop (JBool b) k = Inr None"
| "get_prop (JNum n) k = Inr None"
| "get_prop (JStr s) k = Inr None"
| "get_prop (JArr xs) k = Inr None"

text \<open>JavaScript truthiness of a value that may be \<open>undefined\<close>.\<close>

fun truthy :: "json option \<Rightarrow> bool" where
  "truthy None = False"
| "truthy (Some JNull) = False"
| "truthy (Some (JBool b)) = b"
| "truthy (Some (JNum n)) = (n \<noteq> 0)"
| "truthy (Some (JStr s)) = (s \<noteq> [])"
| "truthy (Some (JArr xs)) = True"
| "truthy (Some (JObj kvs)) = True"

text \<open>The same for a value known to be a string or absent, as \<open>if (transcript)\<close>.\<close>

definition truthy_str :: "jstring option \<Rightarrow> bool" where
  "truthy_str t = (case t of None \<Rightarrow> False | Some x \<Rightarrow> x \<noteq> [])"

section \<open>The wait-intent endpoint (POST /api/check-wait-intent)\<close>

record http_response =
  status :: nat
  payload :: json

definition json_response :: "nat \<Rightarrow> json \<Rightarrow> http_response" where
  "json_response st b = \<lparr>status = st, payload = b\<rparr>"

definition not_wait_response :: http_response where
  "not_wait_response =
     json_response 200 (JObj [(js ''shouldWait'', JBool False), (js ''isWaitIntent'', JBool False)])"

definition internal_error_response :: http_response where
  "internal_error_response =
     json_response 500 (JObj [(js ''error'', JStr (js ''Internal server error''))])"

definition key_missing_response :: http_response where
  "key_missing_response =
     json_response 500 (JObj [(js ''error'', JStr (js ''Google GenAI API key not configured''))])"

text \<open>
  \<open>responseText.match(/\{[\s\S]*\}/)\<close>: the match starts at the first opening brace
  and, the star being greedy, ends at the last closing brace after it.
\<close>

definition match_braces :: "jstring \<Rightarrow> jstring option" where
  "match_braces txt =
     (let rest = dropWhile (\<lambda>c. c \<noteq> 123) txt;
          m = rev (dropWhile (\<lambda>c. c \<noteq> 125) (rev rest))
      in if m = [] then None else Some m)"

text \<open>
  The inner \<open>try\<close> of the route. \<open>JSON_parse\<close> is the library parser (\<open>None\<close> when it
  throws); it is a parameter.
\<close>

definition parse_isWaitIntent :: "(jstring \<Rightarrow> json option) \<Rightarrow> jstring \<Rightarrow> bool" where
  "parse_isWaitIntent JSON_parse responseText =
     (case match_braces responseText of
        None \<Rightarrow> False
      | Some m \<Rightarrow>
          (case JSON_parse m of
             None \<Rightarrow> False
           | Some parsed \<Rightarrow>
               (case get_prop parsed (js ''isWaitIntent'') of
                  Inl e \<Rightarrow> False
                | Inr v \<Rightarrow> v = Some (JBool True))))"

text \<open>
  The route handler. Its inputs: the parser, the environment variable
  \<open>GOOGLE_GENAI_API_KEY\<close>, the language model (from the transcript interpolated into the
  fixed prompt to the text of its answer, \<open>None\<close> when the call throws) and the parsed
  request body (\<open>None\<close> when \<open>request.json()\<close> rejects). The result is the response
  and the list of transcripts for which the language model was invoked. A truthy
  transcript that is not a string has no method \<open>trim\<close>: the call throws and the outer
  \<open>catch\<close> answers 500, as it does when the body is \<open>null\<close> or the model throws.
\<close>

definition check_wait_intent_POST ::
  "(jstring \<Rightarrow> json option) \<Rightarrow> jstring option \<Rightarrow> (jstring \<Rightarrow> jstring option) \<Rightarrow>
   json option \<Rightarrow> http_response \<times> jstring list" where
  "check_wait_intent_POST JSON_parse geminiApiKey generateContent body =
     (case body of
        None \<Rightarrow> (internal_error_response, [])
      | Some b \<Rightarrow>
          (case get_prop b (js ''transcript'') of
             Inl e \<Rightarrow> (internal_error_response, [])
           | Inr transcript \<Rightarrow>
               if \<not> truthy transcript then (not_wait_response, [])
               else
                 (case transcript of
                    Some (JStr t) \<Rightarrow>
                      if trim t = [] then (not_wait_response, [])
                      else if geminiApiKey = None \<or> geminiApiKey = Some []
                      then (key_missing_response, [])
                      else
                        (case generateContent t of
                           None \<Rightarrow> (internal_error_response, [t])
                         | Some responseText \<Rightarrow>
                             (json_response 200
                                (JObj [(js ''isWaitIntent'',
                                        JBool (parse_isWaitIntent JSON_parse responseText))]),
                              [t]))
                  | _ \<Rightarrow> (internal_error_response, []))))"

section \<open>The wait-intent client (checkWaitIntent)\<close>

text \<open>
  How the \<open>fetch\<close> of \<open>/api/check-wait-intent\<close> settles: the request fails, or a
  response arrives with its \<open>ok\<close> flag and the result of \<open>response.json()\<close> (\<open>None\<close>
  when the body is absent or is not JSON).
\<close>

datatype fetch_result =
    NetworkError
  | Response bool "json option"

text \<open>The \<open>try\<close> block of \<open>checkWaitIntent\<close> after the request was issued.\<close>

fun gate_try :: "fetch_result \<Rightarrow> js_error + bool" where
  "gate_try NetworkError = Inl FetchError"
| "gate_try (Response ok body) =
     (if \<not> ok then Inr False
      else
        (case body of
           None \<Rightarrow> Inl SyntaxError
         | Some d \<Rightarrow>
             (case get_prop d (js ''isWaitIntent'') of
                Inl e \<Rightarrow> Inl e
              | Inr v \<Rightarrow> Inr (v = Some (JBool True)))))"

text \<open>
  With the \<open>catch\<close> clause: the value the promise returned by \<open>checkWaitIntent\<close> settles
  with. \<open>Inl\<close> would be a rejection.
\<close>

definition gate_settle :: "fetch_result \<Rightarrow> js_error + bool" where
  "gate_settle r = (case gate_try r of Inl e \<Rightarrow> Inr False | Inr b \<Rightarrow> Inr b)"

definition gate_decision :: "fetch_result \<Rightarrow> bool" where
  "gate_decision r = (case gate_settle r of Inl e \<Rightarrow> False | Inr b \<Rightarrow> b)"

text \<open>
  A response body is well formed when it is an object whose \<open>isWaitIntent\<close> is a
  boolean.
\<close>

definition well_formed_body :: "json \<Rightarrow> bool" where
  "well_formed_body d \<longleftrightarrow>
     get_prop d (js ''isWaitIntent'') = Inr (Some (JBool True)) \<or>
     get_prop d (js ''isWaitIntent'') = Inr (Some (JBool False))"

definition gate_failure :: "fetch_result \<Rightarrow> bool" where
  "gate_failure r \<longleftrightarrow>
     (case r of
        NetworkError \<Rightarrow> True
      | Response ok body \<Rightarrow>
          \<not> ok \<or> (case body of None \<Rightarrow> True | Some d \<Rightarrow> \<not> well_formed_body d))"

section \<open>The session of the streaming recorder\<close>

datatype ConnectionState = Disconnected | Connecting | Connected | Processing | Responding

datatype TurnEvent = Update | StartOfTurn | EagerEndOfTurn | TurnResumed | EndOfTurn

record TurnState =
  turnIndex :: int
  event :: "TurnEvent option"

datatype ready_state = CONNECTING | OPEN | CLOSING | CLOSED

datatype audio_context_state = Suspended | Running | Closed

text \<open>
  A pending timer holds the closure passed to \<open>setTimeout\<close>: the one of the
  \<open>EagerEndOfTurn\<close> case captures the \<open>transcript\<close> of its message (\<open>None\<close> when the
  field is absent), the one of \<open>resetSilenceTimer\<close> captures \<open>timeout\<close>.
\<close>

datatype timer_callback =
    EagerEndCallback "jstring option"
  | SilenceCallback nat

text \<open>
  What runs once an awaited \<open>checkWaitIntent\<close> settles: the rest of the eager-end timer
  callback, or the \<open>then\<close> callback of the \<open>EndOfTurn\<close> case. Each captures
  \<open>finalTranscript\<close>.
\<close>

datatype gate_waiter =
    EagerEndWaiter jstring
  | EndOfTurnWaiter jstring

text \<open>Calls that leave the component, in the order they are made.\<close>

datatype effect =
    CancelAnimationFrame nat
  | ClearTimeout nat
  | SetTimeout nat nat
  | ProcessorDisconnect
  | AudioContextClose
  | StopTracks
  | SendCloseStream
  | WebSocketClose
  | GateRequest jstring
  | FinalizerRequest jstring
  | AudioPlay jstring
  | AudioPause

record finalizer_call =
  fin_transcript :: jstring
  fin_connectionState :: ConnectionState

text \<open>
  The React state and refs of the component, followed by the environment it runs in: the
  closure value of \<open>connectionState\<close> seen by the handlers that \<open>startListening\<close>
  installed, the pending timers, the requests in flight with the code waiting for them,
  and the log of effects. Timer handles are positive in a browser, so a stored handle is
  always truthy: a ref holding one is \<open>Some\<close>. The audio level, the analyser and the
  encoding and sending of audio frames take no part in the turn decisions and are left
  out; the animation loop is represented by the handle of its pending frame.
\<close>

record session =
  connectionState :: ConnectionState
  error :: jstring
  isSpeaking :: bool
  liveTranscript :: jstring
  turnState :: TurnState
  questionNumber :: "int option"
  audioUrl :: "jstring option"
  processingMessage :: jstring
  isExtendedWait :: bool
  websocketRef :: bool
  ws_readyState :: ready_state
  mediaStreamRef :: bool
  audioContextRef :: "audio_context_state option"
  processorRef :: bool
  audioRef :: bool
  animationFrameRef :: "nat option"
  isProcessingRef :: bool
  eagerEndTimeoutRef :: "nat option"
  silenceTimeoutRef :: "nat option"
  isCheckingWaitIntentRef :: bool
  closure_connectionState :: ConnectionState
  next_id :: nat
  timers :: "(nat \<times> timer_callback) list"
  gate_calls :: "(nat \<times> jstring) list"
  gate_waiters :: "(nat \<times> gate_waiter) list"
  finalizer_calls :: "(nat \<times> finalizer_call) list"
  effects :: "effect list"

definition SILENCE_PROMPT_DELAY_MS :: nat where
  "SILENCE_PROMPT_DELAY_MS = 7000"

definition EXTENDED_SILENCE_DELAY_MS :: nat where
  "EXTENDED_SILENCE_DELAY_MS = 20000"

definition EAGER_END_DELAY_MS :: nat where
  "EAGER_END_DELAY_MS = 800"

definition emit :: "effect \<Rightarrow> session \<Rightarrow> session" where
  "emit e s = s\<lparr>effects := effects s @ [e]\<rparr>"

definition drop_id :: "nat \<Rightarrow> (nat \<times> 'a) list \<Rightarrow> (nat \<times> 'a) list" where
  "drop_id i xs = filter (\<lambda>p. fst p \<noteq> i) xs"

definition clearTimeout :: "nat \<Rightarrow> session \<Rightarrow> session" where
  "clearTimeout i s = emit (ClearTimeout i) (s\<lparr>timers := drop_id i (timers s)\<rparr>)"

text \<open>\<open>setTimeout\<close> returns the handle \<open>next_id s\<close>.\<close>

definition setTimeout :: "timer_callback \<Rightarrow> nat \<Rightarrow> session \<Rightarrow> session" where
  "setTimeout cb delay s =
     emit (SetTimeout (next_id s) delay)
       (s\<lparr>timers := timers s @ [(next_id s, cb)], next_id := Suc (next_id s)\<rparr>)"

subsection \<open>cleanup\<close>

definition cancel_animation :: "session \<Rightarrow> session" where
  "cancel_animation s =
     (case animationFrameRef s of
        None \<Rightarrow> s
      | Some f \<Rightarrow> (emit (CancelAnimationFrame f) s)\<lparr>animationFrameRef := None\<rparr>)"

definition cancel_eager_end :: "session \<Rightarrow> session" where
  "cancel_eager_end s =
     (case eagerEndTimeoutRef s of
        None \<Rightarrow> s
      | Some i \<Rightarrow> (clearTimeout i s)\<lparr>eagerEndTimeoutRef := None\<rparr>)"

definition cancel_silence :: "session \<Rightarrow> session" where
  "cancel_silence s =
     (case silenceTimeoutRef s of
        None \<Rightarrow> s
      | Some i \<Rightarrow> (clearTimeout i s)\<lparr>silenceTimeoutRef := None\<rparr>)"

definition disconnect_processor :: "session \<Rightarrow> session" where
  "disconnect_processor s =
     (if processorRef s then (emit ProcessorDisconnect s)\<lparr>processorRef := False\<rparr> else s)"

definition close_audio_context :: "session \<Rightarrow> session" where
  "close_audio_context s =
     (case audioContextRef s of
        None \<Rightarrow> s
      | Some st \<Rightarrow>
          if st \<noteq> Closed then (emit AudioContextClose s)\<lparr>audioContextRef := None\<rparr> else s)"

definition stop_tracks :: "session \<Rightarrow> session" where
  "stop_tracks s =
     (if mediaStreamRef s then (emit StopTracks s)\<lparr>mediaStreamRef := False\<rparr> else s)"

text \<open>\<open>close()\<close> on a socket that is connecting or open starts the closing handshake.\<close>

definition socket_close :: "ready_state \<Rightarrow> ready_state" where
  "socket_close r = (if r = CONNECTING \<or> r = OPEN then CLOSING else r)"

definition close_websocket :: "session \<Rightarrow> session" where
  "close_websocket s =
     (if websocketRef s then
        (let s1 = (if ws_readyState s = OPEN then emit SendCloseStream s else s)
         in (emit WebSocketClose s1)
              \<lparr>ws_readyState := socket_close (ws_readyState s1), websocketRef := False\<rparr>)
      else s)"

definition cleanup :: "session \<Rightarrow> session" where
  "cleanup s =
     (close_websocket (stop_tracks (close_audio_context (disconnect_processor
        (cancel_silence (cancel_eager_end (cancel_animation s)))))))
     \<lparr>isSpeaking := False, isExtendedWait := False\<rparr>"

subsection \<open>processTranscript, checkWaitIntent, resetSilenceTimer\<close>

text \<open>
  \<open>processTranscript\<close> up to the point where it awaits the \<open>fetch\<close> of
  \<open>/api/process-stream\<close>. Its first argument is the \<open>connectionState\<close> of the render
  that created the callback, which the \<open>finally\<close> clause reads later.
\<close>

definition processTranscript :: "ConnectionState \<Rightarrow> jstring \<Rightarrow> session \<Rightarrow> session" where
  "processTranscript closure_state transcript s =
     (if trim transcript = [] \<or> isProcessingRef s then s
      else
        emit (FinalizerRequest transcript)
          (s\<lparr>isProcessingRef := True,
             connectionState := Processing,
             processingMessage := js ''Analyzing your question...'',
             finalizer_calls := finalizer_calls s @
               [(next_id s, \<lparr>fin_transcript = transcript, fin_connectionState = closure_state\<rparr>)],
             next_id := Suc (next_id s)\<rparr>))"

text \<open>
  \<open>checkWaitIntent\<close> up to its first suspension. \<open>Inl b\<close>: it returned before the
  \<open>try\<close>, the promise is already settled with \<open>b\<close>. \<open>Inr i\<close>: the request \<open>i\<close> is in
  flight.
\<close>

definition checkWaitIntent :: "jstring \<Rightarrow> session \<Rightarrow> (bool + nat) \<times> session" where
  "checkWaitIntent transcript s =
     (if trim transcript = [] \<or> isCheckingWaitIntentRef s then (Inl False, s)
      else
        (Inr (next_id s),
         emit (GateRequest transcript)
           (s\<lparr>isCheckingWaitIntentRef := True,
              gate_calls := gate_calls s @ [(next_id s, transcript)],
              next_id := Suc (next_id s)\<rparr>)))"

definition resetSilenceTimer :: "bool \<Rightarrow> session \<Rightarrow> session" where
  "resetSilenceTimer useExtendedTimeout s =
     (let s1 = (case silenceTimeoutRef s of None \<Rightarrow> s | Some i \<Rightarrow> clearTimeout i s);
          timeout = (if useExtendedTimeout then EXTENDED_SILENCE_DELAY_MS
                     else SILENCE_PROMPT_DELAY_MS)
      in (setTimeout (SilenceCallback timeout) timeout s1)\<lparr>silenceTimeoutRef := Some (next_id s1)\<rparr>)"

text \<open>The callback of the silence timer.\<close>

definition silence_timeout :: "session \<Rightarrow> session" where
  "silence_timeout s = (cleanup s)\<lparr>connectionState := Disconnected, isExtendedWait := False\<rparr>"

subsection \<open>The handlers of the turn events\<close>

text \<open>The code after the awaited decision, the same text at both places of the source.\<close>

fun resume :: "gate_waiter \<Rightarrow> bool \<Rightarrow> session \<Rightarrow> session" where
  "resume (EagerEndWaiter finalTranscript) isWaitIntent s =
     (if isWaitIntent then
        resetSilenceTimer True (s\<lparr>isExtendedWait := True, liveTranscript := []\<rparr>)
      else
        processTranscript (closure_connectionState s) finalTranscript
          ((cleanup s)\<lparr>connectionState := Processing\<rparr>))"
| "resume (EndOfTurnWaiter finalTranscript) isWaitIntent s =
     (if isWaitIntent then
        resetSilenceTimer True (s\<lparr>isExtendedWait := True, liveTranscript := []\<rparr>)
      else
        processTranscript (closure_connectionState s) finalTranscript
          ((cleanup s)\<lparr>connectionState := Processing\<rparr>))"

text \<open>
  Awaiting the promise: a settled one resumes the waiting code in the same turn of the
  event loop, before any other event; a pending one registers it.
\<close>

definition await_gate :: "gate_waiter \<Rightarrow> (bool + nat) \<times> session \<Rightarrow> session" where
  "await_gate w r =
     (case r of
        (Inl b, s) \<Rightarrow> resume w b s
      | (Inr i, s) \<Rightarrow> s\<lparr>gate_waiters := gate_waiters s @ [(i, w)]\<rparr>)"

text \<open>The callback of the eager-end timer.\<close>

definition eager_end_timeout :: "jstring option \<Rightarrow> session \<Rightarrow> session" where
  "eager_end_timeout transcript s =
     (if truthy_str transcript \<and> websocketRef s then
        (case transcript of
           None \<Rightarrow> s
         | Some finalTranscript \<Rightarrow>
             await_gate (EagerEndWaiter finalTranscript) (checkWaitIntent finalTranscript s))
      else s)"

datatype ws_message =
    Unparsable
  | MsgConnected
  | TurnInfo "TurnEvent option" int "jstring option"
  | MsgError "jstring option"
  | MsgOther

text \<open>The \<open>switch\<close> over the turn event; an event outside the five matches no case.\<close>

fun turn_event :: "TurnEvent option \<Rightarrow> jstring option \<Rightarrow> session \<Rightarrow> session" where
  "turn_event (Some StartOfTurn) transcript s =
     cancel_eager_end (resetSilenceTimer False (s\<lparr>isSpeaking := True, isExtendedWait := False\<rparr>))"
| "turn_event (Some Update) transcript s =
     (if truthy_str transcript then resetSilenceTimer False s else s)"
| "turn_event (Some EagerEndOfTurn) transcript s =
     (setTimeout (EagerEndCallback transcript) EAGER_END_DELAY_MS s)
       \<lparr>eagerEndTimeoutRef := Some (next_id s)\<rparr>"
| "turn_event (Some TurnResumed) transcript s =
     (cancel_eager_end (resetSilenceTimer False s))\<lparr>isSpeaking := True\<rparr>"
| "turn_event (Some EndOfTurn) transcript s =
     (let s1 = cancel_eager_end s
      in if truthy_str transcript then
           (case transcript of
              None \<Rightarrow> s1
            | Some finalTranscript \<Rightarrow>
                await_gate (EndOfTurnWaiter finalTranscript) (checkWaitIntent finalTranscript s1))
         else s1)"
| "turn_event None transcript s = s"

definition onmessage :: "ws_message \<Rightarrow> session \<Rightarrow> session" where
  "onmessage m s =
     (case m of
        Unparsable \<Rightarrow> s
      | MsgConnected \<Rightarrow> s
      | TurnInfo turnEvent turn_index transcript \<Rightarrow>
          (let s1 = s\<lparr>turnState := \<lparr>turnIndex = turn_index, event = turnEvent\<rparr>\<rparr>;
               s2 = (if truthy_str transcript
                     then (case transcript of
                             None \<Rightarrow> s1
                           | Some t \<Rightarrow> s1\<lparr>liveTranscript := t\<rparr>)
                     else s1)
           in turn_event turnEvent transcript s2)
      | MsgError description \<Rightarrow>
          (cleanup
             (s\<lparr>error := (case description of
                             None \<Rightarrow> js ''Deepgram error occurred''
                           | Some d \<Rightarrow>
                               if truthy_str description then d
                               else js ''Deepgram error occurred'')\<rparr>))
          \<lparr>connectionState := Disconnected\<rparr>
      | MsgOther \<Rightarrow> s)"

definition onerror :: "session \<Rightarrow> session" where
  "onerror s =
     (cleanup (s\<lparr>error := js ''Connection error. Please try again.''\<rparr>))
     \<lparr>connectionState := Disconnected\<rparr>"

definition onclose :: "session \<Rightarrow> session" where
  "onclose s =
     (if closure_connectionState s = Connected then s\<lparr>connectionState := Disconnected\<rparr> else s)"

text \<open>
  \<open>onopen\<close>, with \<open>startAudioProcessing\<close>: the audio context and the processor are
  created and the first animation frame is requested.
\<close>

definition startAudioProcessing :: "session \<Rightarrow> session" where
  "startAudioProcessing s =
     s\<lparr>audioContextRef := Some Running, processorRef := True,
       animationFrameRef := Some (next_id s), next_id := Suc (next_id s)\<rparr>"

definition onopen :: "session \<Rightarrow> session" where
  "onopen s = resetSilenceTimer False (startAudioProcessing (s\<lparr>connectionState := Connected\<rparr>))"

text \<open>
  \<open>startListening\<close>, from the click to the creation of the socket. The token request
  and the microphone request are the two places where it can throw before the socket
  exists; the \<open>catch\<close> clause then shows the message, cleans up and disconnects.
\<close>

datatype start_outcome = Started | TokenFailed jstring | MicrophoneFailed jstring

definition startListening :: "start_outcome \<Rightarrow> session \<Rightarrow> session" where
  "startListening outcome s =
     (let s1 = s\<lparr>error := [], connectionState := Connecting, liveTranscript := [],
                  questionNumber := None, audioUrl := None,
                  turnState := \<lparr>turnIndex = 0, event = None\<rparr>, isExtendedWait := False\<rparr>;
          s2 = (if audioRef s1 then emit AudioPause s1 else s1)
      in case outcome of
           Started \<Rightarrow>
             s2\<lparr>mediaStreamRef := True, websocketRef := True, ws_readyState := CONNECTING,
                closure_connectionState := connectionState s\<rparr>
         | TokenFailed message \<Rightarrow>
             (cleanup (s2\<lparr>error := message\<rparr>))\<lparr>connectionState := Disconnected\<rparr>
         | MicrophoneFailed message \<Rightarrow>
             (cleanup (s2\<lparr>error := message\<rparr>))\<lparr>connectionState := Disconnected\<rparr>)"

text \<open>The component as mounted.\<close>

definition initial_session :: session where
  "initial_session =
     \<lparr>connectionState = Disconnected, error = [], isSpeaking = False, liveTranscript = [],
      turnState = \<lparr>turnIndex = 0, event = None\<rparr>, questionNumber = None, audioUrl = None,
      processingMessage = [], isExtendedWait = False, websocketRef = False,
      ws_readyState = CLOSED, mediaStreamRef = False, audioContextRef = None,
      processorRef = False, audioRef = True, animationFrameRef = None,
      isProcessingRef = False, eagerEndTimeoutRef = None, silenceTimeoutRef = None,
      isCheckingWaitIntentRef = False, closure_connectionState = Disconnected,
      next_id = 1, timers = [], gate_calls = [], gate_waiters = [], finalizer_calls = [],
      effects = []\<rparr>"

definition stopListening :: "session \<Rightarrow> session" where
  "stopListening s =
     (let transcript = liveTranscript s; s1 = cleanup s
      in if trim transcript \<noteq> [] then processTranscript (connectionState s) transcript s1
         else s1\<lparr>connectionState := Disconnected\<rparr>)"

definition handleAudioEnded :: "session \<Rightarrow> session" where
  "handleAudioEnded s = s\<lparr>connectionState := Disconnected\<rparr>"

subsection \<open>Reading the answer of the Finalizer\<close>

datatype finalizer_frame =
    FrameProcessing jstring
  | FrameResult "int option" "jstring option"
  | FrameDone
  | FrameError jstring
  | FrameOther

fun read_frame :: "finalizer_frame \<Rightarrow> session \<Rightarrow> session" where
  "read_frame (FrameProcessing message) s = s\<lparr>processingMessage := message\<rparr>"
| "read_frame (FrameResult qn url) s =
     (let s1 = s\<lparr>questionNumber := qn, audioUrl := url, connectionState := Responding\<rparr>
      in case url of
           None \<Rightarrow> s1
         | Some u \<Rightarrow> if truthy_str url \<and> audioRef s1 then emit (AudioPlay u) s1 else s1)"
| "read_frame FrameDone s = s\<lparr>processingMessage := []\<rparr>"
| "read_frame (FrameError message) s = s\<lparr>error := message\<rparr>"
| "read_frame FrameOther s = s"

text \<open>
  The \<open>catch\<close> and \<open>finally\<close> clauses of \<open>processTranscript\<close>: \<open>Some message\<close> when the
  request, a response that is not \<open>ok\<close> or a missing body threw, \<open>None\<close> when the
  stream ended.
\<close>

definition finalizer_settled :: "finalizer_call \<Rightarrow> jstring option \<Rightarrow> session \<Rightarrow> session" where
  "finalizer_settled c thrown s =
     (let s1 = (case thrown of None \<Rightarrow> s | Some message \<Rightarrow> s\<lparr>error := message\<rparr>);
          s2 = s1\<lparr>isProcessingRef := False\<rparr>
      in if fin_connectionState c = Processing then s2\<lparr>connectionState := Disconnected\<rparr> else s2)"

subsection \<open>The event loop\<close>

text \<open>
  Every reaction runs to completion. A message is delivered only while the socket is
  open, a timer fires only while it is pending, a request settles only while it is in
  flight, and the button stops the recording only while the component shows the
  connected state.
\<close>

datatype trigger =
    WsOpen
  | WsMessage ws_message
  | WsError
  | WsClosed
  | TimerFire nat
  | GateResolve nat fetch_result
  | FinalizerFrame nat finalizer_frame
  | FinalizerSettle nat "jstring option"
  | StopClick
  | AudioEnded
  | Unmount

definition timer_fire :: "nat \<Rightarrow> session \<Rightarrow> session" where
  "timer_fire i s =
     (case map_of (timers s) i of
        None \<Rightarrow> s
      | Some cb \<Rightarrow>
          (let s1 = s\<lparr>timers := drop_id i (timers s)\<rparr>
           in case cb of
                EagerEndCallback transcript \<Rightarrow> eager_end_timeout transcript s1
              | SilenceCallback timeout \<Rightarrow> silence_timeout s1))"

text \<open>
  The request settles: the \<open>finally\<close> clause of \<open>checkWaitIntent\<close> clears the flag, then
  the code awaiting the promise resumes with the decision.
\<close>

definition gate_resolve :: "nat \<Rightarrow> fetch_result \<Rightarrow> session \<Rightarrow> session" where
  "gate_resolve i r s =
     (case map_of (gate_calls s) i of
        None \<Rightarrow> s
      | Some transcript \<Rightarrow>
          (let s1 = s\<lparr>gate_calls := drop_id i (gate_calls s), isCheckingWaitIntentRef := False\<rparr>
           in case map_of (gate_waiters s1) i of
                None \<Rightarrow> s1
              | Some w \<Rightarrow>
                  resume w (gate_decision r) (s1\<lparr>gate_waiters := drop_id i (gate_waiters s1)\<rparr>)))"

fun step :: "trigger \<Rightarrow> session \<Rightarrow> session" where
  "step WsOpen s =
     (if ws_readyState s = CONNECTING then onopen (s\<lparr>ws_readyState := OPEN\<rparr>) else s)"
| "step (WsMessage m) s = (if ws_readyState s = OPEN then onmessage m s else s)"
| "step WsError s = onerror s"
| "step WsClosed s =
     (if ws_readyState s = CLOSED then s else onclose (s\<lparr>ws_readyState := CLOSED\<rparr>))"
| "step (TimerFire i) s = timer_fire i s"
| "step (GateResolve i r) s = gate_resolve i r s"
| "step (FinalizerFrame i f) s =
     (case map_of (finalizer_calls s) i of None \<Rightarrow> s | Some c \<Rightarrow> read_frame f s)"
| "step (FinalizerSettle i thrown) s =
     (case map_of (finalizer_calls s) i of
        None \<Rightarrow> s
      | Some c \<Rightarrow> finalizer_settled c thrown (s\<lparr>finalizer_calls := drop_id i (finalizer_calls s)\<rparr>))"
| "step StopClick s = (if connectionState s = Connected then stopListening s else s)"
| "step AudioEnded s = handleAudioEnded s"
| "step Unmount s = cleanup s"

fun run :: "trigger list \<Rightarrow> session \<Rightarrow> session" where
  "run [] s = s"
| "run (t # ts) s = run ts (step t s)"

text \<open>A session that is listening: started from the mounted component, then opened.\<close>

definition listening_session :: session where
  "listening_session = run [WsOpen] (startListening Started initial_session)"

section \<open>Notions used to state the properties\<close>

text \<open>The effects a reaction added to the log.\<close>

definition emitted :: "session \<Rightarrow> session \<Rightarrow> effect list" where
  "emitted s s' = drop (length (effects s)) (effects s')"

text \<open>The transcripts handed to the Finalizer and to the Gate, in order.\<close>

fun finalizer_of :: "effect \<Rightarrow> jstring list" where
  "finalizer_of (FinalizerRequest t) = [t]"
| "finalizer_of e = []"

fun gate_of :: "effect \<Rightarrow> jstring list" where
  "gate_of (GateRequest t) = [t]"
| "gate_of e = []"

definition finalizer_requests :: "effect list \<Rightarrow> jstring list" where
  "finalizer_requests es = concat (map finalizer_of es)"

definition gate_requests :: "effect list \<Rightarrow> jstring list" where
  "gate_requests es = concat (map gate_of es)"

text \<open>What \<open>cleanup\<close> leaves of the pending timers, and the calls it makes.\<close>

definition cleanup_timers :: "session \<Rightarrow> (nat \<times> timer_callback) list" where
  "cleanup_timers s =
     (case silenceTimeoutRef s of
        None \<Rightarrow> (case eagerEndTimeoutRef s of None \<Rightarrow> timers s | Some i \<Rightarrow> drop_id i (timers s))
      | Some j \<Rightarrow>
          drop_id j
            (case eagerEndTimeoutRef s of None \<Rightarrow> timers s | Some i \<Rightarrow> drop_id i (timers s)))"

definition cleanup_effects :: "session \<Rightarrow> effect list" where
  "cleanup_effects s =
     (case animationFrameRef s of None \<Rightarrow> [] | Some f \<Rightarrow> [CancelAnimationFrame f]) @
     (case eagerEndTimeoutRef s of None \<Rightarrow> [] | Some i \<Rightarrow> [ClearTimeout i]) @
     (case silenceTimeoutRef s of None \<Rightarrow> [] | Some i \<Rightarrow> [ClearTimeout i]) @
     (if processorRef s then [ProcessorDisconnect] else []) @
     (case audioContextRef s of
        None \<Rightarrow> []
      | Some st \<Rightarrow> if st \<noteq> Closed then [AudioContextClose] else []) @
     (if mediaStreamRef s then [StopTracks] else []) @
     (if websocketRef s
      then (if ws_readyState s = OPEN then [SendCloseStream] else []) @ [WebSocketClose]
      else [])"

text \<open>
  The stages of a teardown: cancelling timers and the animation frame, stopping the
  outbound audio, releasing the microphone, closing the transport.
\<close>

fun teardown_stage :: "effect \<Rightarrow> nat" where
  "teardown_stage (CancelAnimationFrame f) = 0"
| "teardown_stage (ClearTimeout i) = 0"
| "teardown_stage ProcessorDisconnect = 1"
| "teardown_stage AudioContextClose = 1"
| "teardown_stage StopTracks = 2"
| "teardown_stage SendCloseStream = 3"
| "teardown_stage WebSocketClose = 3"
| "teardown_stage e = 4"

text \<open>Every resource of the session is released.\<close>

definition torn_down :: "session \<Rightarrow> bool" where
  "torn_down s \<longleftrightarrow>
     animationFrameRef s = None \<and> eagerEndTimeoutRef s = None \<and> silenceTimeoutRef s = None \<and>
     \<not> processorRef s \<and> audioContextRef s \<noteq> Some Running \<and> audioContextRef s \<noteq> Some Suspended \<and>
     \<not> mediaStreamRef s \<and> \<not> websocketRef s"

text \<open>A transcript field that is absent, empty or only whitespace.\<close>

definition blank_or_missing :: "json option \<Rightarrow> bool" where
  "blank_or_missing tv \<longleftrightarrow>
     (case tv of None \<Rightarrow> True | Some (JStr t) \<Rightarrow> trim t = [] | Some _ \<Rightarrow> False)"

text \<open>
  At most one wait-intent request is in flight, the flag \<open>isCheckingWaitIntentRef\<close> is
  set exactly while one is, and code waits only for requests in flight.
\<close>

definition gate_inv :: "session \<Rightarrow> bool" where
  "gate_inv s \<longleftrightarrow>
     length (gate_calls s) \<le> 1 \<and> (isCheckingWaitIntentRef s \<longleftrightarrow> gate_calls s \<noteq> []) \<and>
     set (map fst (gate_waiters s)) \<subseteq> set (map fst (gate_calls s))"

text \<open>The transcript captured by the code that awaits a decision.\<close>

fun waiter_transcript :: "gate_waiter \<Rightarrow> jstring" where
  "waiter_transcript (EagerEndWaiter t) = t"
| "waiter_transcript (EndOfTurnWaiter t) = t"

text \<open>The delivery of a \<open>TurnInfo\<close> message with the given event and transcript.\<close>

definition turn_message :: "TurnEvent \<Rightarrow> int \<Rightarrow> jstring \<Rightarrow> trigger" where
  "turn_message ev n t = WsMessage (TurnInfo (Some ev) n (Some t))"

text \<open>
  The number of requests made to the Finalizer, and the notions used to bound it: a socket
  that is connecting or open is still held by the ref; a session that handed its
  transcript on has released the socket and left the connected state; a trace in which
  no request to the Gate settles after a Finalizer call has settled.
\<close>

definition finalizer_count :: "session \<Rightarrow> nat" where
  "finalizer_count s = length (finalizer_requests (effects s))"

definition socket_inv :: "session \<Rightarrow> bool" where
  "socket_inv s \<longleftrightarrow>
     (ws_readyState s = CONNECTING \<or> ws_readyState s = OPEN \<longrightarrow> websocketRef s)"

definition handed_off :: "session \<Rightarrow> bool" where
  "handed_off s \<longleftrightarrow> \<not> websocketRef s \<and> connectionState s \<noteq> Connected"

fun is_settle :: "trigger \<Rightarrow> bool" where
  "is_settle (FinalizerSettle i thrown) = True"
| "is_settle t = False"

fun is_gate_resolve :: "trigger \<Rightarrow> bool" where
  "is_gate_resolve (GateResolve i r) = True"
| "is_gate_resolve t = False"

fun no_stale_gate :: "trigger list \<Rightarrow> bool" where
  "no_stale_gate [] = True"
| "no_stale_gate (t # ts) =
     (if is_settle t then list_all (\<lambda>u. \<not> is_gate_resolve u) ts else no_stale_gate ts)"

text \<open>What a reaction other than the settling of the Finalizer call may do.\<close>

definition moves :: "session \<Rightarrow> session \<Rightarrow> bool" where
  "moves s s' \<longleftrightarrow>
     (socket_inv s \<longrightarrow> socket_inv s') \<and>
     (finalizer_count s' = finalizer_count s \<or>
      finalizer_count s' = Suc (finalizer_count s) \<and> handed_off s' \<and> isProcessingRef s') \<and>
     (isProcessingRef s \<longrightarrow> isProcessingRef s' \<and> finalizer_count s' = finalizer_count s) \<and>
     (socket_inv s \<and> handed_off s \<longrightarrow> handed_off s')"


definition gate_same :: "session \<Rightarrow> session \<Rightarrow> bool" where
  "gate_same s s' \<longleftrightarrow>
     gate_calls s' = gate_calls s \<and> gate_waiters s' = gate_waiters s \<and>
     isCheckingWaitIntentRef s' = isCheckingWaitIntentRef s"


subsection \<open>Concrete answers and sessions\<close>

definition says_wait :: fetch_result where
  "says_wait = Response True (Some (JObj [(js ''isWaitIntent'', JBool True)]))"

definition says_not_wait :: fetch_result where
  "says_not_wait = Response True (Some (JObj [(js ''isWaitIntent'', JBool False)]))"

text \<open>
  The caller said "hold on", the recognizer sent the eager end of the turn, the
  confirmation timer (handle 3) fired and the request 4 to the Gate is in flight.
\<close>

definition awaiting_eager :: session where
  "awaiting_eager =
     run [turn_message EagerEndOfTurn 0 (js ''hold on''), TimerFire 3] listening_session"


text \<open>
  The eager end of the turn was confirmed by its timer and the request 4 to the Gate is
  in flight when the definitive end of the turn arrives: the overlapping
  \<open>checkWaitIntent\<close> answers false at once and the transcript is handed to the
  Finalizer (call 5).
\<close>

definition handed_off_trace :: "trigger list" where
  "handed_off_trace =
     [turn_message EagerEndOfTurn 0 (js ''how do I''), TimerFire 3,
      turn_message EndOfTurn 0 (js ''how do I check'')]"

text \<open>Then the Finalizer call settles, and only then the request to the Gate.\<close>

definition stale_gate_trace :: "trigger list" where
  "stale_gate_trace = handed_off_trace @ [FinalizerSettle 5 None, GateResolve 4 says_not_wait]"

text \<open>
  The request 4 to the Gate is in flight for the eager candidate when the recognizer
  reports that the caller went on speaking.
\<close>

definition resumed_while_waiting :: session where
  "resumed_while_waiting =
     run [turn_message EagerEndOfTurn 0 (js ''how do I''), TimerFire 3,
          turn_message TurnResumed 0 (js ''how do I check'')] listening_session"

text \<open>
  Two eager ends of the turn arrive one after the other, then the caller resumes: the
  second \<open>setTimeout\<close> overwrote the handle 3 of the first in \<open>eagerEndTimeoutRef\<close>.
\<close>

definition orphaned_eager :: session where
  "orphaned_eager =
     run [turn_message EagerEndOfTurn 0 (js ''how''),
          turn_message EagerEndOfTurn 0 (js ''how do''),
          turn_message TurnResumed 0 (js ''how do I'')] listening_session"


section \<open>How the operations change the session\<close>

lemma emit_sel [simp]:
  "connectionState (emit e s) = connectionState s"
  "liveTranscript (emit e s) = liveTranscript s"
  "isExtendedWait (emit e s) = isExtendedWait s"
  "websocketRef (emit e s) = websocketRef s"
  "ws_readyState (emit e s) = ws_readyState s"
  "mediaStreamRef (emit e s) = mediaStreamRef s"
  "audioContextRef (emit e s) = audioContextRef s"
  "processorRef (emit e s) = processorRef s"
  "animationFrameRef (emit e s) = animationFrameRef s"
  "isProcessingRef (emit e s) = isProcessingRef s"
  "eagerEndTimeoutRef (emit e s) = eagerEndTimeoutRef s"
  "silenceTimeoutRef (emit e s) = silenceTimeoutRef s"
  "isCheckingWaitIntentRef (emit e s) = isCheckingWaitIntentRef s"
  "closure_connectionState (emit e s) = closure_connectionState s"
  "next_id (emit e s) = next_id s"
  "timers (emit e s) = timers s"
  "gate_calls (emit e s) = gate_calls s"
  "gate_waiters (emit e s) = gate_waiters s"
  "finalizer_calls (emit e s) = finalizer_calls s"
  "effects (emit e s) = effects s @ [e]"
  by (simp_all add: emit_def)

lemma clearTimeout_sel [simp]:
  "connectionState (clearTimeout i s) = connectionState s"
  "liveTranscript (clearTimeout i s) = liveTranscript s"
  "isExtendedWait (clearTimeout i s) = isExtendedWait s"
  "websocketRef (clearTimeout i s) = websocketRef s"
  "ws_readyState (clearTimeout i s) = ws_readyState s"
  "mediaStreamRef (clearTimeout i s) = mediaStreamRef s"
  "audioContextRef (clearTimeout i s) = audioContextRef s"
  "processorRef (clearTimeout i s) = processorRef s"
  "animationFrameRef (clearTimeout i s) = animationFrameRef s"
  "isProcessingRef (clearTimeout i s) = isProcessingRef s"
  "eagerEndTimeoutRef (clearTimeout i s) = eagerEndTimeoutRef s"
  "silenceTimeoutRef (clearTimeout i s) = silenceTimeoutRef s"
  "isCheckingWaitIntentRef (clearTimeout i s) = isCheckingWaitIntentRef s"
  "closure_connectionState (clearTimeout i s) = closure_connectionState s"
  "next_id (clearTimeout i s) = next_id s"
  "timers (clearTimeout i s) = drop_id i (timers s)"
  "gate_calls (clearTimeout i s) = gate_calls s"
  "gate_waiters (clearTimeout i s) = gate_waiters s"
  "finalizer_calls (clearTimeout i s) = finalizer_calls s"
  "effects (clearTimeout i s) = effects s @ [ClearTimeout i]"
  by (simp_all add: clearTimeout_def)

lemma setTimeout_sel [simp]:
  "connectionState (setTimeout cb d s) = connectionState s"
  "liveTranscript (setTimeout cb d s) = liveTranscript s"
  "isExtendedWait (setTimeout cb d s) = isExtendedWait s"
  "websocketRef (setTimeout cb d s) = websocketRef s"
  "ws_readyState (setTimeout cb d s) = ws_readyState s"
  "mediaStreamRef (setTimeout cb d s) = mediaStreamRef s"
  "audioContextRef (setTimeout cb d s) = audioContextRef s"
  "processorRef (setTimeout cb d s) = processorRef s"
  "animationFrameRef (setTimeout cb d s) = animationFrameRef s"
  "isProcessingRef (setTimeout cb d s) = isProcessingRef s"
  "eagerEndTimeoutRef (setTimeout cb d s) = eagerEndTimeoutRef s"
  "silenceTimeoutRef (setTimeout cb d s) = silenceTimeoutRef s"
  "isCheckingWaitIntentRef (setTimeout cb d s) = isCheckingWaitIntentRef s"
  "closure_connectionState (setTimeout cb d s) = closure_connectionState s"
  "next_id (setTimeout cb d s) = Suc (next_id s)"
  "timers (setTimeout cb d s) = timers s @ [(next_id s, cb)]"
  "gate_calls (setTimeout cb d s) = gate_calls s"
  "gate_waiters (setTimeout cb d s) = gate_waiters s"
  "finalizer_calls (setTimeout cb d s) = finalizer_calls s"
  "effects (setTimeout cb d s) = effects s @ [SetTimeout (next_id s) d]"
  by (simp_all add: setTimeout_def)

lemma cancel_animation_sel [simp]:
  "connectionState (cancel_animation s) = connectionState s"
  "liveTranscript (cancel_animation s) = liveTranscript s"
  "isExtendedWait (cancel_animation s) = isExtendedWait s"
  "websocketRef (cancel_animation s) = websocketRef s"
  "ws_readyState (cancel_animation s) = ws_readyState s"
  "mediaStreamRef (cancel_animation s) = mediaStreamRef s"
  "audioContextRef (cancel_animation s) = audioContextRef s"
  "processorRef (cancel_animation s) = processorRef s"
  "animationFrameRef (cancel_animation s) = None"
  "isProcessingRef (cancel_animation s) = isProcessingRef s"
  "eagerEndTimeoutRef (cancel_animation s) = eagerEndTimeoutRef s"
  "silenceTimeoutRef (cancel_animation s) = silenceTimeoutRef s"
  "isCheckingWaitIntentRef (cancel_animation s) = isCheckingWaitIntentRef s"
  "closure_connectionState (cancel_animation s) = closure_connectionState s"
  "next_id (cancel_animation s) = next_id s"
  "timers (cancel_animation s) = timers s"
  "gate_calls (cancel_animation s) = gate_calls s"
  "gate_waiters (cancel_animation s) = gate_waiters s"
  "finalizer_calls (cancel_animation s) = finalizer_calls s"
  "effects (cancel_animation s) = effects s @ (case animationFrameRef s of None \<Rightarrow> [] | Some f \<Rightarrow> [CancelAnimationFrame f])"
  by (simp_all add: cancel_animation_def split: option.splits)

lemma cancel_eager_end_sel [simp]:
  "connectionState (cancel_eager_end s) = connectionState s"
  "liveTranscript (cancel_eager_end s) = liveTranscript s"
  "isExtendedWait (cancel_eager_end s) = isExtendedWait s"
  "websocketRef (cancel_eager_end s) = websocketRef s"
  "ws_readyState (cancel_eager_end s) = ws_readyState s"
  "mediaStreamRef (cancel_eager_end s) = mediaStreamRef s"
  "audioContextRef (cancel_eager_end s) = audioContextRef s"
  "processorRef (cancel_eager_end s) = processorRef s"
  "animationFrameRef (cancel_eager_end s) = animationFrameRef s"
  "isProcessingRef (cancel_eager_end s) = isProcessingRef s"
  "eagerEndTimeoutRef (cancel_eager_end s) = None"
  "silenceTimeoutRef (cancel_eager_end s) = silenceTimeoutRef s"
  "isCheckingWaitIntentRef (cancel_eager_end s) = isCheckingWaitIntentRef s"
  "closure_connectionState (cancel_eager_end s) = closure_connectionState s"
  "next_id (cancel_eager_end s) = next_id s"
  "timers (cancel_eager_end s) = (case eagerEndTimeoutRef s of None \<Rightarrow> timers s | Some i \<Rightarrow> drop_id i (timers s))"
  "gate_calls (cancel_eager_end s) = gate_calls s"
  "gate_waiters (cancel_eager_end s) = gate_waiters s"
  "finalizer_calls (cancel_eager_end s) = finalizer_calls s"
  "effects (cancel_eager_end s) = effects s @ (case eagerEndTimeoutRef s of None \<Rightarrow> [] | Some i \<Rightarrow> [ClearTimeout i])"
  by (simp_all add: cancel_eager_end_def split: option.splits)

lemma cancel_silence_sel [simp]:
  "connectionState (cancel_silence s) = connectionState s"
  "liveTranscript (cancel_silence s) = liveTranscript s"
  "isExtendedWait (cancel_silence s) = isExtendedWait s"
  "websocketRef (cancel_silence s) = websocketRef s"
  "ws_readyState (cancel_silence s) = ws_readyState s"
  "mediaStreamRef (cancel_silence s) = mediaStreamRef s"
  "audioContextRef (cancel_silence s) = audioContextRef s"
  "processorRef (cancel_silence s) = processorRef s"
  "animationFrameRef (cancel_silence s) = animationFrameRef s"
  "isProcessingRef (cancel_silence s) = isProcessingRef s"
  "eagerEndTimeoutRef (cancel_silence s) = eagerEndTimeoutRef s"
  "silenceTimeoutRef (cancel_silence s) = None"
  "isCheckingWaitIntentRef (cancel_silence s) = isCheckingWaitIntentRef s"
  "closure_connectionState (cancel_silence s) = closure_connectionState s"
  "next_id (cancel_silence s) = next_id s"
  "timers (cancel_silence s) = (case silenceTimeoutRef s of None \<Rightarrow> timers s | Some i \<Rightarrow> drop_id i (timers s))"
  "gate_calls (cancel_silence s) = gate_calls s"
  "gate_waiters (cancel_silence s) = gate_waiters s"
  "finalizer_calls (cancel_silence s) = finalizer_calls s"
  "effects (cancel_silence s) = effects s @ (case silenceTimeoutRef s of None \<Rightarrow> [] | Some i \<Rightarrow> [ClearTimeout i])"
  by (simp_all add: cancel_silence_def split: option.splits)

lemma disconnect_processor_sel [simp]:
  "connectionState (disconnect_processor s) = connectionState s"
  "liveTranscript (disconnect_processor s) = liveTranscript s"
  "isExtendedWait (disconnect_processor s) = isExtendedWait s"
  "websocketRef (disconnect_processor s) = websocketRef s"
  "ws_readyState (disconnect_processor s) = ws_readyState s"
  "mediaStreamRef (disconnect_processor s) = mediaStreamRef s"
  "audioContextRef (disconnect_processor s) = audioContextRef s"
  "processorRef (disconnect_processor s) = False"
  "animationFrameRef (disconnect_processor s) = animationFrameRef s"
  "isProcessingRef (disconnect_processor s) = isProcessingRef s"
  "eagerEndTimeoutRef (disconnect_processor s) = eagerEndTimeoutRef s"
  "silenceTimeoutRef (disconnect_processor s) = silenceTimeoutRef s"
  "isCheckingWaitIntentRef (disconnect_processor s) = isCheckingWaitIntentRef s"
  "closure_connectionState (disconnect_processor s) = closure_connectionState s"
  "next_id (disconnect_processor s) = next_id s"
  "timers (disconnect_processor s) = timers s"
  "gate_calls (disconnect_processor s) = gate_calls s"
  "gate_waiters (disconnect_processor s) = gate_waiters s"
  "finalizer_calls (disconnect_processor s) = finalizer_calls s"
  "effects (disconnect_processor s) = effects s @ (if processorRef s then [ProcessorDisconnect] else [])"
  by (simp_all add: disconnect_processor_def)

lemma close_audio_context_sel [simp]:
  "connectionState (close_audio_context s) = connectionState s"
  "liveTranscript (close_audio_context s) = liveTranscript s"
  "isExtendedWait (close_audio_context s) = isExtendedWait s"
  "websocketRef (close_audio_context s) = websocketRef s"
  "ws_readyState (close_audio_context s) = ws_readyState s"
  "mediaStreamRef (close_audio_context s) = mediaStreamRef s"
  "audioContextRef (close_audio_context s) = (if audioContextRef s = Some Closed then Some Closed else None)"
  "processorRef (close_audio_context s) = processorRef s"
  "animationFrameRef (close_audio_context s) = animationFrameRef s"
  "isProcessingRef (close_audio_context s) = isProcessingRef s"
  "eagerEndTimeoutRef (close_audio_context s) = eagerEndTimeoutRef s"
  "silenceTimeoutRef (close_audio_context s) = silenceTimeoutRef s"
  "isCheckingWaitIntentRef (close_audio_context s) = isCheckingWaitIntentRef s"
  "closure_connectionState (close_audio_context s) = closure_connectionState s"
  "next_id (close_audio_context s) = next_id s"
  "timers (close_audio_context s) = timers s"
  "gate_calls (close_audio_context s) = gate_calls s"
  "gate_waiters (close_audio_context s) = gate_waiters s"
  "finalizer_calls (close_audio_context s) = finalizer_calls s"
  "effects (close_audio_context s) = effects s @ (case audioContextRef s of None \<Rightarrow> [] | Some st \<Rightarrow> if st \<noteq> Closed then [AudioContextClose] else [])"
  by (simp_all add: close_audio_context_def split: option.splits)

lemma stop_tracks_sel [simp]:
  "connectionState (stop_tracks s) = connectionState s"
  "liveTranscript (stop_tracks s) = liveTranscript s"
  "isExtendedWait (stop_tracks s) = isExtendedWait s"
  "websocketRef (stop_tracks s) = websocketRef s"
  "ws_readyState (stop_tracks s) = ws_readyState s"
  "mediaStreamRef (stop_tracks s) = False"
  "audioContextRef (stop_tracks s) = audioContextRef s"
  "processorRef (stop_tracks s) = processorRef s"
  "animationFrameRef (stop_tracks s) = animationFrameRef s"
  "isProcessingRef (stop_tracks s) = isProcessingRef s"
  "eagerEndTimeoutRef (stop_tracks s) = eagerEndTimeoutRef s"
  "silenceTimeoutRef (stop_tracks s) = silenceTimeoutRef s"
  "isCheckingWaitIntentRef (stop_tracks s) = isCheckingWaitIntentRef s"
  "closure_connectionState (stop_tracks s) = closure_connectionState s"
  "next_id (stop_tracks s) = next_id s"
  "timers (stop_tracks s) = timers s"
  "gate_calls (stop_tracks s) = gate_calls s"
  "gate_waiters (stop_tracks s) = gate_waiters s"
  "finalizer_calls (stop_tracks s) = finalizer_calls s"
  "effects (stop_tracks s) = effects s @ (if mediaStreamRef s then [StopTracks] else [])"
  by (simp_all add: stop_tracks_def)

lemma close_websocket_sel [simp]:
  "connectionState (close_websocket s) = connectionState s"
  "liveTranscript (close_websocket s) = liveTranscript s"
  "isExtendedWait (close_websocket s) = isExtendedWait s"
  "websocketRef (close_websocket s) = False"
  "ws_readyState (close_websocket s) = (if websocketRef s then socket_close (ws_readyState s) else ws_readyState s)"
  "mediaStreamRef (close_websocket s) = mediaStreamRef s"
  "audioContextRef (close_websocket s) = audioContextRef s"
  "processorRef (close_websocket s) = processorRef s"
  "animationFrameRef (close_websocket s) = animationFrameRef s"
  "isProcessingRef (close_websocket s) = isProcessingRef s"
  "eagerEndTimeoutRef (close_websocket s) = eagerEndTimeoutRef s"
  "silenceTimeoutRef (close_websocket s) = silenceTimeoutRef s"
  "isCheckingWaitIntentRef (close_websocket s) = isCheckingWaitIntentRef s"
  "closure_connectionState (close_websocket s) = closure_connectionState s"
  "next_id (close_websocket s) = next_id s"
  "timers (close_websocket s) = timers s"
  "gate_calls (close_websocket s) = gate_calls s"
  "gate_waiters (close_websocket s) = gate_waiters s"
  "finalizer_calls (close_websocket s) = finalizer_calls s"
  "effects (close_websocket s) = effects s @ (if websocketRef s then (if ws_readyState s = OPEN then [SendCloseStream] else []) @ [WebSocketClose] else [])"
  by (simp_all add: close_websocket_def Let_def)

lemma cleanup_sel [simp]:
  "connectionState (cleanup s) = connectionState s"
  "liveTranscript (cleanup s) = liveTranscript s"
  "isExtendedWait (cleanup s) = False"
  "websocketRef (cleanup s) = False"
  "ws_readyState (cleanup s) = (if websocketRef s then socket_close (ws_readyState s) else ws_readyState s)"
  "mediaStreamRef (cleanup s) = False"
  "audioContextRef (cleanup s) = (if audioContextRef s = Some Closed then Some Closed else None)"
  "processorRef (cleanup s) = False"
  "animationFrameRef (cleanup s) = None"
  "isProcessingRef (cleanup s) = isProcessingRef s"
  "eagerEndTimeoutRef (cleanup s) = None"
  "silenceTimeoutRef (cleanup s) = None"
  "isCheckingWaitIntentRef (cleanup s) = isCheckingWaitIntentRef s"
  "closure_connectionState (cleanup s) = closure_connectionState s"
  "next_id (cleanup s) = next_id s"
  "timers (cleanup s) = cleanup_timers s"
  "gate_calls (cleanup s) = gate_calls s"
  "gate_waiters (cleanup s) = gate_waiters s"
  "finalizer_calls (cleanup s) = finalizer_calls s"
  "effects (cleanup s) = effects s @ cleanup_effects s"
  by (simp_all add: cleanup_def cleanup_effects_def cleanup_timers_def split: option.splits)

lemma resetSilenceTimer_sel [simp]:
  "connectionState (resetSilenceTimer b s) = connectionState s"
  "liveTranscript (resetSilenceTimer b s) = liveTranscript s"
  "isExtendedWait (resetSilenceTimer b s) = isExtendedWait s"
  "websocketRef (resetSilenceTimer b s) = websocketRef s"
  "ws_readyState (resetSilenceTimer b s) = ws_readyState s"
  "mediaStreamRef (resetSilenceTimer b s) = mediaStreamRef s"
  "audioContextRef (resetSilenceTimer b s) = audioContextRef s"
  "processorRef (resetSilenceTimer b s) = processorRef s"
  "animationFrameRef (resetSilenceTimer b s) = animationFrameRef s"
  "isProcessingRef (resetSilenceTimer b s) = isProcessingRef s"
  "eagerEndTimeoutRef (resetSilenceTimer b s) = eagerEndTimeoutRef s"
  "silenceTimeoutRef (resetSilenceTimer b s) = Some (next_id s)"
  "isCheckingWaitIntentRef (resetSilenceTimer b s) = isCheckingWaitIntentRef s"
  "closure_connectionState (resetSilenceTimer b s) = closure_connectionState s"
  "next_id (resetSilenceTimer b s) = Suc (next_id s)"
  "timers (resetSilenceTimer b s) = (case silenceTimeoutRef s of None \<Rightarrow> timers s | Some i \<Rightarrow> drop_id i (timers s)) @ [(next_id s, SilenceCallback ((if b then EXTENDED_SILENCE_DELAY_MS else SILENCE_PROMPT_DELAY_MS)))]"
  "gate_calls (resetSilenceTimer b s) = gate_calls s"
  "gate_waiters (resetSilenceTimer b s) = gate_waiters s"
  "finalizer_calls (resetSilenceTimer b s) = finalizer_calls s"
  "effects (resetSilenceTimer b s) = effects s @ (case silenceTimeoutRef s of None \<Rightarrow> [] | Some i \<Rightarrow> [ClearTimeout i]) @ [SetTimeout (next_id s) ((if b then EXTENDED_SILENCE_DELAY_MS else SILENCE_PROMPT_DELAY_MS))]"
  by (simp_all add: resetSilenceTimer_def Let_def split: option.splits)

lemma processTranscript_sel [simp]:
  "connectionState (processTranscript c t s) = (if trim t = [] \<or> isProcessingRef s then connectionState s else Processing)"
  "liveTranscript (processTranscript c t s) = liveTranscript s"
  "isExtendedWait (processTranscript c t s) = isExtendedWait s"
  "websocketRef (processTranscript c t s) = websocketRef s"
  "ws_readyState (processTranscript c t s) = ws_readyState s"
  "mediaStreamRef (processTranscript c t s) = mediaStreamRef s"
  "audioContextRef (processTranscript c t s) = audioContextRef s"
  "processorRef (processTranscript c t s) = processorRef s"
  "animationFrameRef (processTranscript c t s) = animationFrameRef s"
  "isProcessingRef (processTranscript c t s) = (isProcessingRef s \<or> trim t \<noteq> [])"
  "eagerEndTimeoutRef (processTranscript c t s) = eagerEndTimeoutRef s"
  "silenceTimeoutRef (processTranscript c t s) = silenceTimeoutRef s"
  "isCheckingWaitIntentRef (processTranscript c t s) = isCheckingWaitIntentRef s"
  "closure_connectionState (processTranscript c t s) = closure_connectionState s"
  "next_id (processTranscript c t s) = (if trim t = [] \<or> isProcessingRef s then next_id s else Suc (next_id s))"
  "timers (processTranscript c t s) = timers s"
  "gate_calls (processTranscript c t s) = gate_calls s"
  "gate_waiters (processTranscript c t s) = gate_waiters s"
  "finalizer_calls (processTranscript c t s) = (if trim t = [] \<or> isProcessingRef s then finalizer_calls s else finalizer_calls s @ [(next_id s, \<lparr>fin_transcript = t, fin_connectionState = c\<rparr>)])"
  "effects (processTranscript c t s) = effects s @ (if trim t = [] \<or> isProcessingRef s then [] else [FinalizerRequest t])"
  by (auto simp: processTranscript_def)

lemma checkWaitIntent_sel [simp]:
  "connectionState (snd (checkWaitIntent t s)) = connectionState s"
  "liveTranscript (snd (checkWaitIntent t s)) = liveTranscript s"
  "isExtendedWait (snd (checkWaitIntent t s)) = isExtendedWait s"
  "websocketRef (snd (checkWaitIntent t s)) = websocketRef s"
  "ws_readyState (snd (checkWaitIntent t s)) = ws_readyState s"
  "mediaStreamRef (snd (checkWaitIntent t s)) = mediaStreamRef s"
  "audioContextRef (snd (checkWaitIntent t s)) = audioContextRef s"
  "processorRef (snd (checkWaitIntent t s)) = processorRef s"
  "animationFrameRef (snd (checkWaitIntent t s)) = animationFrameRef s"
  "isProcessingRef (snd (checkWaitIntent t s)) = isProcessingRef s"
  "eagerEndTimeoutRef (snd (checkWaitIntent t s)) = eagerEndTimeoutRef s"
  "silenceTimeoutRef (snd (checkWaitIntent t s)) = silenceTimeoutRef s"
  "isCheckingWaitIntentRef (snd (checkWaitIntent t s)) = (isCheckingWaitIntentRef s \<or> trim t \<noteq> [])"
  "closure_connectionState (snd (checkWaitIntent t s)) = closure_connectionState s"
  "next_id (snd (checkWaitIntent t s)) = (if trim t = [] \<or> isCheckingWaitIntentRef s then next_id s else Suc (next_id s))"
  "timers (snd (checkWaitIntent t s)) = timers s"
  "gate_calls (snd (checkWaitIntent t s)) = (if trim t = [] \<or> isCheckingWaitIntentRef s then gate_calls s else gate_calls s @ [(next_id s, t)])"
  "gate_waiters (snd (checkWaitIntent t s)) = gate_waiters s"
  "finalizer_calls (snd (checkWaitIntent t s)) = finalizer_calls s"
  "effects (snd (checkWaitIntent t s)) = effects s @ (if trim t = [] \<or> isCheckingWaitIntentRef s then [] else [GateRequest t])"
  by (auto simp: checkWaitIntent_def)

lemma checkWaitIntent_fst [simp]:
  "fst (checkWaitIntent t s) = (if trim t = [] \<or> isCheckingWaitIntentRef s then Inl False else Inr (next_id s))"
  by (simp add: checkWaitIntent_def)

lemma await_gate_eq:
  "await_gate w r =
     (case fst r of
        Inl b \<Rightarrow> resume w b (snd r)
      | Inr i \<Rightarrow> (snd r)\<lparr>gate_waiters := gate_waiters (snd r) @ [(i, w)]\<rparr>)"
  by (simp add: await_gate_def split: prod.splits sum.splits)

section \<open>Auxiliary facts\<close>

text \<open>The equations that evaluate the model on a concrete session.\<close>

lemmas session_defs = emit_def drop_id_def clearTimeout_def setTimeout_def cancel_animation_def
  cancel_eager_end_def cancel_silence_def disconnect_processor_def close_audio_context_def
  stop_tracks_def socket_close_def close_websocket_def cleanup_def processTranscript_def
  checkWaitIntent_def resetSilenceTimer_def silence_timeout_def await_gate_def
  eager_end_timeout_def onmessage_def onerror_def onclose_def startAudioProcessing_def
  onopen_def startListening_def initial_session_def listening_session_def stopListening_def
  finalizer_settled_def timer_fire_def gate_resolve_def truthy_str_def handleAudioEnded_def
  SILENCE_PROMPT_DELAY_MS_def EXTENDED_SILENCE_DELAY_MS_def EAGER_END_DELAY_MS_def
  cleanup_effects_def cleanup_timers_def emitted_def finalizer_requests_def gate_requests_def
  torn_down_def js_def trim_def is_whitespace_def gate_decision_def gate_settle_def Let_def

lemma trim_Nil [simp]: "trim [] = []"
  by (simp add: trim_def)

lemma emitted_append: "effects s' = effects s @ es \<Longrightarrow> emitted s s' = es"
  by (simp add: emitted_def)

lemma finalizer_requests_simps [simp]:
  "finalizer_requests [] = []"
  "finalizer_requests (e # es) = finalizer_of e @ finalizer_requests es"
  "finalizer_requests (es @ es') = finalizer_requests es @ finalizer_requests es'"
  by (simp_all add: finalizer_requests_def)

lemma gate_requests_simps [simp]:
  "gate_requests [] = []"
  "gate_requests (e # es) = gate_of e @ gate_requests es"
  "gate_requests (es @ es') = gate_requests es @ gate_requests es'"
  by (simp_all add: gate_requests_def)

lemma cleanup_effects_cong:
  "animationFrameRef s' = animationFrameRef s \<Longrightarrow> eagerEndTimeoutRef s' = eagerEndTimeoutRef s \<Longrightarrow>
   silenceTimeoutRef s' = silenceTimeoutRef s \<Longrightarrow> processorRef s' = processorRef s \<Longrightarrow>
   audioContextRef s' = audioContextRef s \<Longrightarrow> mediaStreamRef s' = mediaStreamRef s \<Longrightarrow>
   websocketRef s' = websocketRef s \<Longrightarrow> ws_readyState s' = ws_readyState s \<Longrightarrow>
   cleanup_effects s' = cleanup_effects s"
  by (simp add: cleanup_effects_def)

lemma no_requests_in_cleanup [simp]:
  "finalizer_requests (cleanup_effects s) = []"
  "gate_requests (cleanup_effects s) = []"
  by (auto simp: cleanup_effects_def split: option.splits)

lemma sorted_cleanup_effects: "sorted (map teardown_stage (cleanup_effects s))"
  by (simp add: cleanup_effects_def split: option.splits)

lemma torn_down_cleanup [simp]: "torn_down (cleanup s)"
  by (simp add: torn_down_def)

lemma silence_timeout_sel:
  "connectionState (silence_timeout s) = Disconnected"
  "isExtendedWait (silence_timeout s) = False"
  "liveTranscript (silence_timeout s) = liveTranscript s"
  "effects (silence_timeout s) = effects s @ cleanup_effects s"
  "torn_down (silence_timeout s)"
  by (simp_all add: silence_timeout_def torn_down_def)

lemma resume_eq:
  "resume w b s =
     (if b then resetSilenceTimer True (s\<lparr>isExtendedWait := True, liveTranscript := []\<rparr>)
      else processTranscript (closure_connectionState s) (waiter_transcript w)
             ((cleanup s)\<lparr>connectionState := Processing\<rparr>))"
  by (cases w) simp_all

lemma await_gate_skip:
  "trim t = [] \<or> isCheckingWaitIntentRef s \<Longrightarrow>
   await_gate w (checkWaitIntent t s) = resume w False s"
  by (simp add: await_gate_def checkWaitIntent_def)

lemma await_gate_issue:
  "trim t \<noteq> [] \<Longrightarrow> \<not> isCheckingWaitIntentRef s \<Longrightarrow>
   await_gate w (checkWaitIntent t s) =
     (snd (checkWaitIntent t s))\<lparr>gate_waiters := gate_waiters s @ [(next_id s, w)]\<rparr>"
  by (simp add: await_gate_def checkWaitIntent_def emit_def)

lemma gate_resolve_eq:
  assumes "map_of (gate_calls s) i = Some t" and "map_of (gate_waiters s) i = Some w"
  shows "gate_resolve i r s =
           resume w (gate_decision r)
             (s\<lparr>gate_calls := drop_id i (gate_calls s), isCheckingWaitIntentRef := False,
                gate_waiters := drop_id i (gate_waiters s)\<rparr>)"
  using assms by (simp add: gate_resolve_def)



lemma gate_idle:
  assumes "gate_inv s" and "\<not> isCheckingWaitIntentRef s"
  shows "gate_calls s = []" and "gate_waiters s = []"
  using assms by (auto simp: gate_inv_def)

lemma run_append: "run (ts @ us) s = run us (run ts s)"
  by (induction ts arbitrary: s) simp_all

lemma map_of_drop_id [simp]: "map_of (drop_id i xs) i = None"
  by (induction xs) (simp_all add: drop_id_def)

subsection \<open>Single turn events on an open socket\<close>


lemma update_step:
  assumes "ws_readyState s = OPEN"
  shows "ws_readyState (step (turn_message Update n u) s) = OPEN"
    and "connectionState (step (turn_message Update n u) s) = connectionState s"
    and "eagerEndTimeoutRef (step (turn_message Update n u) s) = eagerEndTimeoutRef s"
    and "\<exists>es. effects (step (turn_message Update n u) s) = effects s @ es \<and>
              gate_requests es = [] \<and> finalizer_requests es = []"
  using assms
  by (simp_all add: turn_message_def onmessage_def truthy_str_def Let_def split: option.splits)

lemma updates_run:
  assumes "ws_readyState s = OPEN"
  shows "ws_readyState (run (map (turn_message Update n) us) s) = OPEN \<and>
         connectionState (run (map (turn_message Update n) us) s) = connectionState s \<and>
         eagerEndTimeoutRef (run (map (turn_message Update n) us) s) = eagerEndTimeoutRef s \<and>
         (\<exists>es. effects (run (map (turn_message Update n) us) s) = effects s @ es \<and>
              gate_requests es = [] \<and> finalizer_requests es = [])"
  using assms
proof (induction us arbitrary: s)
  case Nil
  then show ?case by simp
next
  case (Cons u us)
  let ?s1 = "step (turn_message Update n u) s"
  note st = update_step [OF Cons.prems, where n = n and u = u]
  from st(4) obtain es where es: "effects ?s1 = effects s @ es" "gate_requests es = []"
    "finalizer_requests es = []" by blast
  from Cons.IH [OF st(1)] obtain es' where
    r: "ws_readyState (run (map (turn_message Update n) us) ?s1) = OPEN"
       "connectionState (run (map (turn_message Update n) us) ?s1) = connectionState ?s1"
       "eagerEndTimeoutRef (run (map (turn_message Update n) us) ?s1) = eagerEndTimeoutRef ?s1"
       "effects (run (map (turn_message Update n) us) ?s1) = effects ?s1 @ es'"
       "gate_requests es' = []" "finalizer_requests es' = []"
    by blast
  have "effects (run (map (turn_message Update n) us) ?s1) = effects s @ (es @ es')"
    using r(4) es(1) by simp
  moreover have "gate_requests (es @ es') = []" "finalizer_requests (es @ es') = []"
    using es r by simp_all
  ultimately have "\<exists>es. effects (run (map (turn_message Update n) us) ?s1) = effects s @ es \<and>
              gate_requests es = [] \<and> finalizer_requests es = []"
    by blast
  then show ?case using r(1,2,3) st(2,3) by simp
qed

lemma eager_step:
  assumes "ws_readyState s = OPEN"
  shows "ws_readyState (step (turn_message EagerEndOfTurn n t) s) = OPEN"
    and "connectionState (step (turn_message EagerEndOfTurn n t) s) = connectionState s"
    and "eagerEndTimeoutRef (step (turn_message EagerEndOfTurn n t) s) = Some (next_id s)"
    and "effects (step (turn_message EagerEndOfTurn n t) s) =
           effects s @ [SetTimeout (next_id s) 800]"
    and "(next_id s, EagerEndCallback (Some t))
           \<in> set (timers (step (turn_message EagerEndOfTurn n t) s))"
  using assms
  by (simp_all add: turn_message_def onmessage_def truthy_str_def Let_def EAGER_END_DELAY_MS_def)

lemma resumed_step:
  assumes "ws_readyState s = OPEN" and "eagerEndTimeoutRef s = Some k"
  shows "connectionState (step (turn_message TurnResumed n t) s) = connectionState s"
    and "map_of (timers (step (turn_message TurnResumed n t) s)) k = None"
    and "eagerEndTimeoutRef (step (turn_message TurnResumed n t) s) = None"
    and "\<exists>es. effects (step (turn_message TurnResumed n t) s) = effects s @ es \<and>
              gate_requests es = [] \<and> finalizer_requests es = []"
  using assms
  by (simp_all add: turn_message_def onmessage_def truthy_str_def Let_def split: option.splits)

subsection \<open>The concrete sessions\<close>

lemma listening_session_facts:
  "ws_readyState listening_session = OPEN"
  "connectionState listening_session = Connected"
  "\<not> isProcessingRef listening_session"
  "\<not> isCheckingWaitIntentRef listening_session"
  "gate_inv listening_session"
  "next_id listening_session = 3"
  by (simp_all add: session_defs gate_inv_def)

lemma awaiting_eager_facts:
  "map_of (gate_calls awaiting_eager) 4 = Some (js ''hold on'')"
  "map_of (gate_waiters awaiting_eager) 4 = Some (EagerEndWaiter (js ''hold on''))"
  "connectionState awaiting_eager = Connected"
  "silenceTimeoutRef awaiting_eager = Some 2"
  "next_id awaiting_eager = 5"
  "ws_readyState awaiting_eager = OPEN"
  "gate_inv awaiting_eager"
  "gate_calls awaiting_eager \<noteq> []"
  by (simp_all add: awaiting_eager_def turn_message_def session_defs gate_inv_def)


lemma answers_facts:
  "gate_decision says_wait"
  "\<not> gate_decision says_not_wait"
  by (simp_all add: says_wait_def says_not_wait_def gate_decision_def gate_settle_def)

section \<open>The wait-intent client fails safe\<close>

text \<open>
  Claim C7. Whatever the transcript, when the request to \<open>/api/check-wait-intent\<close>
  fails, the response is not \<open>ok\<close>, or its body is absent or is not an object with a
  boolean \<open>isWaitIntent\<close>, the promise returned by \<open>checkWaitIntent\<close> is fulfilled with
  \<open>false\<close>: it is not rejected, and the code awaiting it resumes with the decision
  "not a wait request".
\<close>

theorem gate_fails_safe:
  "gate_failure r \<Longrightarrow> gate_settle r = Inr False \<and> gate_decision r = False"
  by (cases r)
     (auto simp: gate_failure_def gate_settle_def gate_decision_def well_formed_body_def
           split: option.splits sum.splits)

theorem gate_fails_safe_witness:
  "gate_failure (Response True (Some (JObj [(js ''isWaitIntent'', JStr (js ''yes''))]))) \<and>
   gate_settle (Response True (Some (JObj [(js ''isWaitIntent'', JStr (js ''yes''))]))) = Inr False \<and>
   gate_decision (Response True (Some (JObj [(js ''isWaitIntent'', JStr (js ''yes''))]))) = False"
proof -
  have h: "gate_failure (Response True (Some (JObj [(js ''isWaitIntent'', JStr (js ''yes''))])))"
    by (simp add: gate_failure_def well_formed_body_def)
  from gate_fails_safe [OF h] h show ?thesis by blast
qed

section \<open>The endpoint answers a blank transcript without the language model\<close>

text \<open>
  The claim C10 speaks of every request without a transcript. A request whose body is
  \<open>null\<close>, or is not JSON at all, has none either; there the destructuring, or
  \<open>request.json()\<close>, throws and the outer \<open>catch\<close> answers with status 500.
\<close>

theorem null_body_counterexample:
  "get_prop JNull (js ''transcript'') = Inl TypeError \<and>
   check_wait_intent_POST (\<lambda>x. None) (Some (js ''key'')) (\<lambda>t. Some (js ''{}'')) (Some JNull)
     = (internal_error_response, []) \<and>
   check_wait_intent_POST (\<lambda>x. None) (Some (js ''key'')) (\<lambda>t. Some (js ''{}'')) None
     = (internal_error_response, []) \<and>
   status internal_error_response = 500"
  by (simp add: check_wait_intent_POST_def internal_error_response_def json_response_def)

text \<open>
  Claim C10, amended. When the body of the request is a JSON value other than \<open>null\<close>
  and its \<open>transcript\<close> is missing, empty or only whitespace, the endpoint answers with
  status 200 and \<open>isWaitIntent\<close> false; when the body is not JSON or is \<open>null\<close> it
  answers with status 500. In neither case is the language model invoked: this holds
  for every parser, key and language model.
\<close>

theorem blank_transcript_skips_model:
  assumes "get_prop b (js ''transcript'') = Inr tv" and "blank_or_missing tv"
  shows "check_wait_intent_POST JSON_parse geminiApiKey generateContent (Some b)
           = (not_wait_response, []) \<and>
         status not_wait_response = 200 \<and>
         get_prop (payload not_wait_response) (js ''isWaitIntent'') = Inr (Some (JBool False)) \<and>
         check_wait_intent_POST JSON_parse geminiApiKey generateContent None
           = (internal_error_response, []) \<and>
         check_wait_intent_POST JSON_parse geminiApiKey generateContent (Some JNull)
           = (internal_error_response, []) \<and>
         status internal_error_response = 500"
proof -
  have "check_wait_intent_POST JSON_parse geminiApiKey generateContent (Some b)
          = (not_wait_response, [])"
    using assms
    by (auto simp: check_wait_intent_POST_def blank_or_missing_def
             split: option.splits json.splits)
  moreover have "status not_wait_response = 200"
    by (simp add: not_wait_response_def json_response_def)
  moreover have
    "get_prop (payload not_wait_response) (js ''isWaitIntent'') = Inr (Some (JBool False))"
    by (simp add: not_wait_response_def json_response_def js_def)
  moreover have
    "check_wait_intent_POST JSON_parse geminiApiKey generateContent None
       = (internal_error_response, [])"
    "check_wait_intent_POST JSON_parse geminiApiKey generateContent (Some JNull)
       = (internal_error_response, [])"
    "status internal_error_response = 500"
    by (simp_all add: check_wait_intent_POST_def internal_error_response_def json_response_def)
  ultimately show ?thesis by blast
qed

theorem blank_transcript_skips_model_witness:
  "get_prop (JObj [(js ''transcript'', JStr [32, 9, 160])]) (js ''transcript'')
     = Inr (Some (JStr [32, 9, 160])) \<and>
   blank_or_missing (Some (JStr [32, 9, 160])) \<and>
   check_wait_intent_POST (\<lambda>x. None) (Some (js ''key'')) (\<lambda>t. Some (js ''{}''))
     (Some (JObj [(js ''transcript'', JStr [32, 9, 160])])) = (not_wait_response, [])"
proof -
  have h1: "get_prop (JObj [(js ''transcript'', JStr [32, 9, 160])]) (js ''transcript'')
              = Inr (Some (JStr [32, 9, 160]))"
    by simp
  have h2: "blank_or_missing (Some (JStr [32, 9, 160]))"
    by (simp add: blank_or_missing_def trim_def is_whitespace_def)
  from blank_transcript_skips_model [OF h1 h2] h1 h2 show ?thesis by blast
qed

section \<open>The order of a teardown\<close>

text \<open>
  The order claimed in C9 (timers, outbound audio, transport close, microphone) is not
  the order of \<open>cleanup\<close>. On the listening session the tracks of the microphone are
  stopped before the close message is sent and the socket is closed.
\<close>

theorem cleanup_order_counterexample:
  "emitted listening_session (cleanup listening_session) =
     [CancelAnimationFrame 1, ClearTimeout 2, ProcessorDisconnect, AudioContextClose,
      StopTracks, SendCloseStream, WebSocketClose]"
  by (simp add: session_defs)

text \<open>
  Claim C9, amended. Every \<open>cleanup\<close> makes its calls in the fixed order: it cancels
  the animation frame and the timers held in the two refs, then stops the outbound audio
  (processor, audio context), then releases the microphone stream, then signals the close
  to the transport and closes it.
\<close>

theorem cleanup_order:
  "emitted s (cleanup s) = cleanup_effects s \<and>
   sorted (map teardown_stage (emitted s (cleanup s)))"
proof -
  have "emitted s (cleanup s) = cleanup_effects s"
    by (rule emitted_append) simp
  then show ?thesis
    by (simp add: sorted_cleanup_effects)
qed

section \<open>The silence watchdog\<close>

text \<open>
  Claim C4. When the pending silence timer fires (whatever its deadline, 7 s or 20 s,
  and whatever the state of the session, the connected one included), the session is torn
  down and becomes disconnected. The reaction makes the calls of the teardown and no
  other: no request goes to the Finalizer or to the Gate, so a partial transcript is
  dropped without being processed. The text on display is not touched by this path.
\<close>

theorem watchdog_fires:
  assumes "map_of (timers s) i = Some (SilenceCallback d)"
  shows "connectionState (step (TimerFire i) s) = Disconnected \<and>
         torn_down (step (TimerFire i) s) \<and>
         \<not> isExtendedWait (step (TimerFire i) s) \<and>
         emitted s (step (TimerFire i) s) = cleanup_effects s \<and>
         finalizer_requests (emitted s (step (TimerFire i) s)) = [] \<and>
         gate_requests (emitted s (step (TimerFire i) s)) = [] \<and>
         liveTranscript (step (TimerFire i) s) = liveTranscript s"
proof -
  let ?s1 = "s\<lparr>timers := drop_id i (timers s)\<rparr>"
  have st: "step (TimerFire i) s = silence_timeout ?s1"
    using assms by (simp add: timer_fire_def)
  have ce: "cleanup_effects ?s1 = cleanup_effects s"
    by (rule cleanup_effects_cong) simp_all
  have em: "emitted s (silence_timeout ?s1) = cleanup_effects s"
    by (rule emitted_append) (simp add: silence_timeout_sel ce)
  show ?thesis
    unfolding st em by (simp add: silence_timeout_sel)
qed

theorem watchdog_fires_witness:
  "map_of (timers listening_session) 2 = Some (SilenceCallback 7000) \<and>
   connectionState (step (TimerFire 2) listening_session) = Disconnected \<and>
   torn_down (step (TimerFire 2) listening_session) \<and>
   finalizer_requests (emitted listening_session (step (TimerFire 2) listening_session)) = []"
proof -
  have h: "map_of (timers listening_session) 2 = Some (SilenceCallback 7000)"
    by (simp add: session_defs)
  from watchdog_fires [OF h] h show ?thesis by blast
qed

section \<open>A resumed turn and the eager end\<close>

text \<open>
  On an open socket in the connected state, let an \<open>EagerEndOfTurn\<close> event be followed,
  before its 800 ms confirmation timer fires, by any number of \<open>Update\<close> events and then
  by \<open>TurnResumed\<close>, with no other \<open>EagerEndOfTurn\<close> in between. The eager event had
  armed the timer holding the candidate transcript; after \<open>TurnResumed\<close> that timer is no
  longer pending, so its callback never runs: firing its handle does nothing. No request
  was made to the Gate or to the Finalizer meanwhile, and the session is still connected.
\<close>

lemma resumed_cancels_eager_end:
  assumes "ws_readyState s = OPEN" and "connectionState s = Connected"
  shows "let s' = run (turn_message EagerEndOfTurn n t # map (turn_message Update n) us @
                        [turn_message TurnResumed n t']) s
         in (next_id s, EagerEndCallback (Some t))
              \<in> set (timers (step (turn_message EagerEndOfTurn n t) s)) \<and>
            map_of (timers s') (next_id s) = None \<and>
            step (TimerFire (next_id s)) s' = s' \<and>
            eagerEndTimeoutRef s' = None \<and>
            connectionState s' = Connected \<and>
            gate_requests (emitted s s') = [] \<and>
            finalizer_requests (emitted s s') = []"
proof -
  let ?s1 = "step (turn_message EagerEndOfTurn n t) s"
  let ?s2 = "run (map (turn_message Update n) us) ?s1"
  let ?s' = "step (turn_message TurnResumed n t') ?s2"
  have run: "run (turn_message EagerEndOfTurn n t # map (turn_message Update n) us @
                        [turn_message TurnResumed n t']) s = ?s'"
    by (simp add: run_append)
  note e = eager_step [OF assms(1), where n = n and t = t]
  from updates_run [OF e(1), where n = n and us = us] obtain es2 where
    u: "ws_readyState ?s2 = OPEN" "connectionState ?s2 = connectionState ?s1"
       "eagerEndTimeoutRef ?s2 = eagerEndTimeoutRef ?s1"
       "effects ?s2 = effects ?s1 @ es2" "gate_requests es2 = []" "finalizer_requests es2 = []"
    by blast
  have k: "eagerEndTimeoutRef ?s2 = Some (next_id s)"
    using u(3) e(3) by simp
  note r = resumed_step [OF u(1) k, where n = n and t = t']
  from r(4) obtain es3 where
    es3: "effects ?s' = effects ?s2 @ es3" "gate_requests es3 = []" "finalizer_requests es3 = []"
    by blast
  have "effects ?s' = effects s @ (SetTimeout (next_id s) 800 # es2 @ es3)"
    using es3(1) u(4) e(4) by simp
  then have em: "emitted s ?s' = SetTimeout (next_id s) 800 # es2 @ es3"
    by (rule emitted_append)
  have q: "gate_requests (emitted s ?s') = []" "finalizer_requests (emitted s ?s') = []"
    unfolding em using u(5,6) es3(2,3) by simp_all
  have c: "connectionState ?s' = Connected"
    using r(1) u(2) e(2) assms(2) by simp
  have f: "step (TimerFire (next_id s)) ?s' = ?s'"
    using r(2) by (simp add: timer_fire_def)
  show ?thesis
    unfolding run Let_def using e(5) r(2) r(3) f c q by blast
qed

text \<open>
  Claim C3 does not hold of the code. The \<open>EagerEndOfTurn\<close> case stores the new handle
  in \<open>eagerEndTimeoutRef\<close> without clearing the one it holds, as \<open>resetSilenceTimer\<close>
  does for its own timer. After two eager ends of the turn, \<open>TurnResumed\<close> clears the
  second timer only. The session is connected and the ref is empty, yet the timer of the
  first candidate is pending: it fires, asks the Gate for that candidate and, on "not
  wait", hands it to the Finalizer.
\<close>

theorem orphaned_eager_timer_fires:
  "map_of (timers orphaned_eager) 3 = Some (EagerEndCallback (Some (js ''how''))) \<and>
   eagerEndTimeoutRef orphaned_eager = None \<and>
   connectionState orphaned_eager = Connected \<and>
   gate_requests (emitted orphaned_eager (step (TimerFire 3) orphaned_eager)) = [js ''how''] \<and>
   connectionState (run [TimerFire 3, GateResolve 6 says_not_wait] orphaned_eager) = Processing \<and>
   finalizer_requests
     (emitted orphaned_eager (run [TimerFire 3, GateResolve 6 says_not_wait] orphaned_eager))
     = [js ''how'']"
  by (simp add: orphaned_eager_def says_not_wait_def turn_message_def session_defs)

section \<open>A decision to wait extends the silence deadline\<close>

text \<open>
  Claim C5. When a request to the Gate settles with the decision "wait", whichever code
  awaits it (the rest of the eager-end timer callback, reached after the 800 ms timer, or
  the callback of the definitive \<open>EndOfTurn\<close>), the reaction clears the live
  transcript, sets \<open>isExtendedWait\<close>, cancels the silence timer held in the ref and arms
  a new one of 20000 ms, makes no request to the Finalizer, and leaves the connection
  state as it was: a connected session stays connected.
\<close>

theorem wait_decision_extends:
  assumes "map_of (gate_calls s) i = Some t" and "map_of (gate_waiters s) i = Some w"
    and "gate_decision r"
  shows "liveTranscript (step (GateResolve i r) s) = [] \<and>
         isExtendedWait (step (GateResolve i r) s) \<and>
         connectionState (step (GateResolve i r) s) = connectionState s \<and>
         silenceTimeoutRef (step (GateResolve i r) s) = Some (next_id s) \<and>
         (next_id s, SilenceCallback 20000) \<in> set (timers (step (GateResolve i r) s)) \<and>
         emitted s (step (GateResolve i r) s) =
           (case silenceTimeoutRef s of None \<Rightarrow> [] | Some j \<Rightarrow> [ClearTimeout j]) @
           [SetTimeout (next_id s) 20000] \<and>
         finalizer_requests (emitted s (step (GateResolve i r) s)) = []"
proof -
  let ?s2 = "s\<lparr>gate_calls := drop_id i (gate_calls s), isCheckingWaitIntentRef := False,
                gate_waiters := drop_id i (gate_waiters s)\<rparr>"
  let ?s' = "resetSilenceTimer True (?s2\<lparr>isExtendedWait := True, liveTranscript := []\<rparr>)"
  have st: "step (GateResolve i r) s = ?s'"
    using assms by (simp add: gate_resolve_eq resume_eq)
  have em: "emitted s ?s' =
           (case silenceTimeoutRef s of None \<Rightarrow> [] | Some j \<Rightarrow> [ClearTimeout j]) @
           [SetTimeout (next_id s) 20000]"
    by (rule emitted_append) (simp add: EXTENDED_SILENCE_DELAY_MS_def)
  have fr: "finalizer_requests
              ((case silenceTimeoutRef s of None \<Rightarrow> [] | Some j \<Rightarrow> [ClearTimeout j]) @
               [SetTimeout (next_id s) 20000]) = []"
    by (simp split: option.splits)
  show ?thesis
    unfolding st em fr by (simp add: EXTENDED_SILENCE_DELAY_MS_def)
qed

theorem wait_decision_extends_witness:
  "map_of (gate_calls awaiting_eager) 4 = Some (js ''hold on'') \<and>
   map_of (gate_waiters awaiting_eager) 4 = Some (EagerEndWaiter (js ''hold on'')) \<and>
   gate_decision says_wait \<and>
   liveTranscript (step (GateResolve 4 says_wait) awaiting_eager) = [] \<and>
   isExtendedWait (step (GateResolve 4 says_wait) awaiting_eager) \<and>
   connectionState (step (GateResolve 4 says_wait) awaiting_eager) = Connected \<and>
   emitted awaiting_eager (step (GateResolve 4 says_wait) awaiting_eager) =
     [ClearTimeout 2, SetTimeout 5 20000]"
proof -
  note h = awaiting_eager_facts(1) awaiting_eager_facts(2) answers_facts(1)
  from wait_decision_extends [OF h] h show ?thesis
    by (simp add: awaiting_eager_facts)
qed

section \<open>One request to the Gate at a time\<close>

lemma gate_inv_cong:
  "gate_calls s' = gate_calls s \<Longrightarrow> gate_waiters s' = gate_waiters s \<Longrightarrow>
   isCheckingWaitIntentRef s' = isCheckingWaitIntentRef s \<Longrightarrow> gate_inv s' = gate_inv s"
  by (simp add: gate_inv_def)

lemma gate_inv_resume [simp]: "gate_inv (resume w b s) = gate_inv s"
  by (rule gate_inv_cong) (simp_all add: resume_eq)

lemma gate_inv_cleanup [simp]: "gate_inv (cleanup s) = gate_inv s"
  by (rule gate_inv_cong) simp_all

lemma gate_inv_await:
  assumes "gate_inv s"
  shows "gate_inv (await_gate w (checkWaitIntent t s))"
proof (cases "trim t = [] \<or> isCheckingWaitIntentRef s")
  case True
  then show ?thesis using assms by (simp add: await_gate_skip)
next
  case False
  then have "gate_calls s = []" "gate_waiters s = []"
    using gate_idle [OF assms] by blast+
  then show ?thesis using False by (simp add: await_gate_issue gate_inv_def)
qed

lemma gate_inv_turn_event:
  assumes "gate_inv s"
  shows "gate_inv (turn_event ev tr s)"
proof (cases "(ev, tr, s)" rule: turn_event.cases)
  case (5 transcript s)
  have "gate_inv (cancel_eager_end s)"
    using assms 5 by (simp add: gate_inv_def)
  then show ?thesis
    using 5 by (simp add: Let_def gate_inv_await split: option.splits)
qed (use assms in \<open>simp_all add: gate_inv_def\<close>)

lemma gate_inv_onmessage:
  assumes "gate_inv s"
  shows "gate_inv (onmessage m s)"
proof (cases m)
  case (TurnInfo ev n tr)
  have "gate_inv (s\<lparr>turnState := \<lparr>turnIndex = n, event = ev\<rparr>\<rparr>)"
       "\<And>t. gate_inv (s\<lparr>turnState := \<lparr>turnIndex = n, event = ev\<rparr>, liveTranscript := t\<rparr>)"
    using assms by (simp_all add: gate_inv_def)
  then show ?thesis
    using TurnInfo by (simp add: onmessage_def Let_def gate_inv_turn_event split: option.splits)
next
  case (MsgError d)
  then show ?thesis using assms by (simp add: onmessage_def gate_inv_def)
qed (use assms in \<open>simp_all add: onmessage_def\<close>)

lemma gate_inv_timer_fire:
  assumes "gate_inv s"
  shows "gate_inv (timer_fire i s)"
proof (cases "map_of (timers s) i")
  case None
  then show ?thesis using assms by (simp add: timer_fire_def)
next
  case (Some cb)
  have inv: "gate_inv (s\<lparr>timers := drop_id i (timers s)\<rparr>)"
    using assms by (simp add: gate_inv_def)
  show ?thesis
  proof (cases cb)
    case (EagerEndCallback tr)
    then show ?thesis
      using Some inv
      by (simp add: timer_fire_def eager_end_timeout_def gate_inv_await Let_def
               split: option.splits)
  next
    case (SilenceCallback d)
    then show ?thesis
      using Some inv by (simp add: timer_fire_def silence_timeout_def gate_inv_def Let_def)
  qed
qed

lemma drop_id_single:
  "length xs \<le> 1 \<Longrightarrow> map_of xs i = Some v \<Longrightarrow> drop_id i xs = []"
  by (cases xs) (auto simp: drop_id_def split: if_splits)

lemma drop_id_subset:
  "set (map fst ys) \<subseteq> set (map fst xs) \<Longrightarrow> length xs \<le> 1 \<Longrightarrow> map_of xs i = Some v \<Longrightarrow>
   drop_id i ys = []"
  by (cases xs) (auto simp: drop_id_def filter_empty_conv split: if_splits)

lemma drop_id_Nil_map_of:
  "drop_id i xs = [] \<Longrightarrow> map_of xs i = None \<Longrightarrow> xs = []"
  by (cases xs) (auto simp: drop_id_def split: if_splits)

lemma gate_inv_gate_resolve:
  assumes "gate_inv s"
  shows "gate_inv (gate_resolve i r s)"
proof (cases "map_of (gate_calls s) i")
  case None
  then show ?thesis using assms by (simp add: gate_resolve_def)
next
  case (Some t)
  from assms have a: "length (gate_calls s) \<le> 1"
    "set (map fst (gate_waiters s)) \<subseteq> set (map fst (gate_calls s))"
    unfolding gate_inv_def by blast+
  have c: "drop_id i (gate_calls s) = []"
    using a(1) Some by (rule drop_id_single)
  have w: "drop_id i (gate_waiters s) = []"
    using a(2) a(1) Some by (rule drop_id_subset)
  have w': "map_of (gate_waiters s) i = None \<Longrightarrow> gate_waiters s = []"
    using w by (rule drop_id_Nil_map_of)
  show ?thesis
  proof (cases "map_of (gate_waiters s) i")
    case None
    then show ?thesis
      using Some c w' by (simp add: gate_resolve_def gate_inv_def Let_def)
  next
    case (Some w0)
    then show ?thesis
      using \<open>map_of (gate_calls s) i = Some t\<close> c w
      by (simp add: gate_resolve_eq) (simp add: gate_inv_def)
  qed
qed

lemma gate_inv_step:
  assumes "gate_inv s"
  shows "gate_inv (step t s)"
proof (cases t)
  case (WsMessage m)
  then show ?thesis using assms by (simp add: gate_inv_onmessage)
next
  case (TimerFire i)
  then show ?thesis using assms by (simp add: gate_inv_timer_fire)
next
  case (GateResolve i r)
  then show ?thesis using assms by (simp add: gate_inv_gate_resolve)
next
  case (FinalizerFrame i f)
  have "gate_inv (read_frame f s)"
    using assms by (cases f) (simp_all add: gate_inv_def Let_def split: option.splits)
  then show ?thesis using FinalizerFrame assms by (simp split: option.splits)
next
  case (FinalizerSettle i th)
  then show ?thesis
    using assms by (simp add: finalizer_settled_def gate_inv_def Let_def split: option.splits)
next
  case StopClick
  then show ?thesis using assms by (simp add: stopListening_def gate_inv_def Let_def)
qed (use assms in \<open>simp_all add: gate_inv_def onopen_def startAudioProcessing_def onerror_def
       onclose_def handleAudioEnded_def\<close>)

lemma gate_inv_run: "gate_inv s \<Longrightarrow> gate_inv (run ts s)"
  by (induction ts arbitrary: s) (simp_all add: gate_inv_step)

text \<open>
  Claim C8. Start from a session in which at most one request to the Gate is in flight
  and the flag \<open>isCheckingWaitIntentRef\<close> tells whether one is (the mounted component
  and the listening session are such). After any sequence of reactions at most one
  request is in flight; and while one is, a call of \<open>checkWaitIntent\<close>, with whatever
  transcript, returns false at once and leaves the session as it is: it makes no
  request and is not queued.
\<close>

theorem one_gate_call_in_flight:
  assumes "gate_inv s"
  shows "length (gate_calls (run ts s)) \<le> 1 \<and>
         (gate_calls (run ts s) \<noteq> [] \<longrightarrow>
            checkWaitIntent t (run ts s) = (Inl False, run ts s))"
proof -
  have "gate_inv (run ts s)"
    using assms by (rule gate_inv_run)
  then show ?thesis
    by (simp add: gate_inv_def checkWaitIntent_def)
qed

theorem one_gate_call_in_flight_witness:
  "gate_inv listening_session \<and>
   length (gate_calls awaiting_eager) \<le> 1 \<and>
   gate_calls awaiting_eager \<noteq> [] \<and>
   checkWaitIntent (js ''how do I check'') awaiting_eager = (Inl False, awaiting_eager)"
proof -
  have h: "gate_inv listening_session"
    by (rule listening_session_facts)
  have "length (gate_calls awaiting_eager) \<le> 1 \<and>
        (gate_calls awaiting_eager \<noteq> [] \<longrightarrow>
           checkWaitIntent (js ''how do I check'') awaiting_eager = (Inl False, awaiting_eager))"
    unfolding awaiting_eager_def using h by (rule one_gate_call_in_flight)
  with h awaiting_eager_facts(8) show ?thesis by blast
qed

section \<open>A definitive end of turn that is not a wait request\<close>

subsection \<open>A request in flight stays in flight until it settles\<close>

lemma gate_same_refl [simp]: "gate_same s s"
  by (simp add: gate_same_def)

lemma gate_same_resume [simp]: "gate_same s (resume w b s)"
  by (simp add: gate_same_def resume_eq)









subsection \<open>The hand-off\<close>




section \<open>Requests to the Finalizer\<close>

lemma socket_close_simps [simp]:
  "socket_close r \<noteq> CONNECTING" "socket_close r \<noteq> OPEN"
  by (simp_all add: socket_close_def)

lemma no_requests_in_clear [simp]:
  "finalizer_requests (case x of None \<Rightarrow> [] | Some i \<Rightarrow> [ClearTimeout i]) = []"
  "gate_requests (case x of None \<Rightarrow> [] | Some i \<Rightarrow> [ClearTimeout i]) = []"
  by (cases x; simp)+

lemma moves_refl [simp]: "moves s s"
  by (simp add: moves_def)

lemma moves_cong:
  "moves s0 s' \<Longrightarrow> websocketRef s0 = websocketRef s \<Longrightarrow> ws_readyState s0 = ws_readyState s \<Longrightarrow>
   connectionState s0 = connectionState s \<Longrightarrow> isProcessingRef s0 = isProcessingRef s \<Longrightarrow>
   finalizer_count s0 = finalizer_count s \<Longrightarrow> moves s s'"
  by (auto simp: moves_def socket_inv_def handed_off_def finalizer_count_def)

lemma moves_resume: "moves s (resume w b s)"
  by (simp add: moves_def resume_eq socket_inv_def handed_off_def finalizer_count_def)

lemma moves_await: "moves s (await_gate w (checkWaitIntent t s))"
proof (cases "trim t = [] \<or> isCheckingWaitIntentRef s")
  case True
  then show ?thesis by (simp add: await_gate_skip moves_resume)
next
  case False
  then show ?thesis
    by (simp add: await_gate_issue moves_def socket_inv_def handed_off_def finalizer_count_def)
qed

lemma moves_turn_event: "moves s (turn_event ev tr s)"
proof (cases "(ev, tr, s)" rule: turn_event.cases)
  case (5 transcript s')
  have "moves (cancel_eager_end s) (turn_event ev tr s)"
    using 5 by (simp add: Let_def moves_await split: option.splits)
  then show ?thesis
    by (rule moves_cong) (simp_all add: finalizer_count_def)
qed (simp_all add: moves_def socket_inv_def handed_off_def finalizer_count_def)

lemma moves_onmessage: "moves s (onmessage m s)"
proof (cases m)
  case (TurnInfo ev n tr)
  let ?s2 = "if truthy_str tr
             then (case tr of None \<Rightarrow> s\<lparr>turnState := \<lparr>turnIndex = n, event = ev\<rparr>\<rparr>
                   | Some t \<Rightarrow> s\<lparr>turnState := \<lparr>turnIndex = n, event = ev\<rparr>, liveTranscript := t\<rparr>)
             else s\<lparr>turnState := \<lparr>turnIndex = n, event = ev\<rparr>\<rparr>"
  have eq: "onmessage m s = turn_event ev tr ?s2"
    using TurnInfo by (simp add: onmessage_def Let_def split: option.splits)
  have "moves ?s2 (turn_event ev tr ?s2)"
    by (rule moves_turn_event)
  then show ?thesis
    unfolding eq by (rule moves_cong) (simp_all add: finalizer_count_def split: option.splits)
next
  case (MsgError d)
  then show ?thesis
    by (simp add: onmessage_def moves_def socket_inv_def handed_off_def finalizer_count_def)
qed (simp_all add: onmessage_def)

lemma moves_timer_fire: "moves s (timer_fire i s)"
proof (cases "map_of (timers s) i")
  case None
  then show ?thesis by (simp add: timer_fire_def)
next
  case (Some cb)
  let ?s1 = "s\<lparr>timers := drop_id i (timers s)\<rparr>"
  show ?thesis
  proof (cases cb)
    case (EagerEndCallback tr)
    have "moves ?s1 (timer_fire i s)"
      using Some EagerEndCallback
      by (simp add: timer_fire_def eager_end_timeout_def Let_def moves_await split: option.splits)
    then show ?thesis by (rule moves_cong) (simp_all add: finalizer_count_def)
  next
    case (SilenceCallback d)
    then show ?thesis
      using Some
      by (simp add: timer_fire_def silence_timeout_def Let_def moves_def socket_inv_def
            handed_off_def finalizer_count_def)
  qed
qed

lemma moves_gate_resolve: "moves s (gate_resolve i r s)"
proof (cases "map_of (gate_calls s) i")
  case None
  then show ?thesis by (simp add: gate_resolve_def)
next
  case (Some t)
  show ?thesis
  proof (cases "map_of (gate_waiters s) i")
    case None
    then show ?thesis
      using Some
      by (simp add: gate_resolve_def Let_def moves_def socket_inv_def handed_off_def
            finalizer_count_def)
  next
    case (Some w)
    let ?s1 = "s\<lparr>gate_calls := drop_id i (gate_calls s), isCheckingWaitIntentRef := False,
                gate_waiters := drop_id i (gate_waiters s)\<rparr>"
    have "moves ?s1 (resume w (gate_decision r) ?s1)"
      by (rule moves_resume)
    then have "moves s (resume w (gate_decision r) ?s1)"
      by (rule moves_cong) (simp_all add: finalizer_count_def)
    then show ?thesis
      using \<open>map_of (gate_calls s) i = Some t\<close> Some by (simp add: gate_resolve_eq)
  qed
qed

lemma finalizer_count_read_frame [simp]:
  "finalizer_count (read_frame f s) = finalizer_count s"
  by (cases f) (simp_all add: finalizer_count_def Let_def split: option.splits)

lemma read_frame_sel [simp]:
  "websocketRef (read_frame f s) = websocketRef s"
  "ws_readyState (read_frame f s) = ws_readyState s"
  "isProcessingRef (read_frame f s) = isProcessingRef s"
  by (cases f; simp add: Let_def split: option.splits)+

lemma read_frame_connectionState:
  "connectionState (read_frame f s) = connectionState s \<or>
   connectionState (read_frame f s) = Responding"
  by (cases f) (simp_all add: Let_def split: option.splits)

lemma moves_step:
  assumes "\<not> is_settle t"
  shows "moves s (step t s)"
proof (cases t)
  case (WsMessage m)
  then show ?thesis by (simp add: moves_onmessage)
next
  case (TimerFire i)
  then show ?thesis by (simp add: moves_timer_fire)
next
  case (GateResolve i r)
  then show ?thesis by (simp add: moves_gate_resolve)
next
  case (FinalizerFrame i f)
  have "moves s (read_frame f s)"
    using read_frame_connectionState [of f s]
    by (auto simp: moves_def socket_inv_def handed_off_def)
  then show ?thesis using FinalizerFrame by (simp split: option.splits)
next
  case (FinalizerSettle i th)
  then show ?thesis using assms by simp
next
  case StopClick
  then show ?thesis
    by (simp add: stopListening_def Let_def moves_def socket_inv_def handed_off_def
          finalizer_count_def)
next
  case WsOpen
  then show ?thesis
    by (auto simp: onopen_def startAudioProcessing_def moves_def socket_inv_def handed_off_def
          finalizer_count_def)
qed (simp_all add: onerror_def onclose_def handleAudioEnded_def moves_def socket_inv_def
       handed_off_def finalizer_count_def)

lemma settle_step:
  "socket_inv s \<Longrightarrow> socket_inv (step (FinalizerSettle i th) s)"
  "finalizer_count (step (FinalizerSettle i th) s) = finalizer_count s"
  "handed_off s \<Longrightarrow> handed_off (step (FinalizerSettle i th) s)"
  by (simp_all add: finalizer_settled_def Let_def socket_inv_def handed_off_def
        finalizer_count_def split: option.splits)

lemma handed_off_quiet:
  assumes "socket_inv s" and "handed_off s" and "\<not> is_gate_resolve t"
  shows "finalizer_count (step t s) = finalizer_count s"
proof (cases t)
  case (TimerFire i)
  show ?thesis
  proof (cases "map_of (timers s) i")
    case None
    then show ?thesis using TimerFire by (simp add: timer_fire_def)
  next
    case (Some cb)
    then show ?thesis
      using TimerFire assms(2)
      by (cases cb)
         (simp_all add: timer_fire_def eager_end_timeout_def silence_timeout_def Let_def
            handed_off_def finalizer_count_def)
  qed
next
  case (GateResolve i r)
  then show ?thesis using assms(3) by simp
next
  case (FinalizerFrame i f)
  then show ?thesis by (simp split: option.splits)
next
  case (FinalizerSettle i th)
  then show ?thesis by (simp only: settle_step)
qed (use assms in \<open>auto simp: onerror_def onclose_def handleAudioEnded_def socket_inv_def
       handed_off_def finalizer_count_def\<close>)

lemma after_settle_run:
  assumes "socket_inv s"
    and "finalizer_count s = n \<or> finalizer_count s = Suc n \<and> handed_off s"
    and "list_all (\<lambda>u. \<not> is_gate_resolve u) ts"
  shows "finalizer_count (run ts s) \<le> Suc n"
  using assms
proof (induction ts arbitrary: s)
  case Nil
  then show ?case by auto
next
  case (Cons t ts)
  from Cons.prems(3) have t: "\<not> is_gate_resolve t"
    and ts: "list_all (\<lambda>u. \<not> is_gate_resolve u) ts"
    by simp_all
  have inv: "socket_inv (step t s)"
    using Cons.prems(1) moves_step [where t = t and s = s] settle_step(1) [where s = s]
    by (cases "is_settle t") (auto simp: moves_def elim: is_settle.elims)
  have "finalizer_count (step t s) = n \<or>
        finalizer_count (step t s) = Suc n \<and> handed_off (step t s)"
  proof (cases "is_settle t")
    case True
    then obtain i th where "t = FinalizerSettle i th"
      by (auto elim: is_settle.elims)
    then show ?thesis
      using Cons.prems(2) settle_step(2,3) [where i = i and th = th and s = s] by auto
  next
    case False
    note m = moves_step [OF False, where s = s]
    show ?thesis
    proof (cases "finalizer_count s = n")
      case True
      then show ?thesis using m by (auto simp: moves_def)
    next
      case False
      then have h: "finalizer_count s = Suc n" "handed_off s"
        using Cons.prems(2) by auto
      have "finalizer_count (step t s) = finalizer_count s"
        using Cons.prems(1) h(2) t by (rule handed_off_quiet)
      moreover have "handed_off (step t s)"
        using m Cons.prems(1) h(2) by (simp add: moves_def)
      ultimately show ?thesis using h(1) by simp
    qed
  qed
  from Cons.IH [OF inv this ts] show ?case by simp
qed

lemma before_settle_run:
  assumes "socket_inv s"
    and "finalizer_count s = n \<or>
         finalizer_count s = Suc n \<and> handed_off s \<and> isProcessingRef s"
    and "no_stale_gate ts"
  shows "finalizer_count (run ts s) \<le> Suc n"
  using assms
proof (induction ts arbitrary: s)
  case Nil
  then show ?case by auto
next
  case (Cons t ts)
  show ?case
  proof (cases "is_settle t")
    case True
    then obtain i th where t: "t = FinalizerSettle i th"
      by (auto elim: is_settle.elims)
    have "socket_inv (step t s)"
      using Cons.prems(1) t by (simp only: settle_step)
    moreover have "finalizer_count (step t s) = n \<or>
        finalizer_count (step t s) = Suc n \<and> handed_off (step t s)"
      using Cons.prems(2) t settle_step(2,3) [where i = i and th = th and s = s] by auto
    moreover have "list_all (\<lambda>u. \<not> is_gate_resolve u) ts"
      using Cons.prems(3) True by simp
    ultimately have "finalizer_count (run ts (step t s)) \<le> Suc n"
      by (rule after_settle_run)
    then show ?thesis by simp
  next
    case False
    note m = moves_step [OF False, where s = s]
    have inv: "socket_inv (step t s)"
      using Cons.prems(1) m by (simp add: moves_def)
    have "finalizer_count (step t s) = n \<or>
          finalizer_count (step t s) = Suc n \<and> handed_off (step t s) \<and>
          isProcessingRef (step t s)"
      using Cons.prems(1,2) m by (auto simp: moves_def)
    moreover have "no_stale_gate ts"
      using Cons.prems(3) False by simp
    ultimately show ?thesis
      using Cons.IH [OF inv] by simp
  qed
qed

text \<open>
  The Finalizer is asked at most once in a listening phase as long as no request to the
  Gate settles after a Finalizer call has settled: while the call is in flight the guard
  on \<open>isProcessingRef\<close> stops every further \<open>processTranscript\<close>, and after the teardown
  that precedes the hand-off no message is delivered, the eager-end callback finds the
  socket ref empty and the button no longer stops a recording.
\<close>

lemma finalizer_once_unless_stale_gate:
  assumes "socket_inv s" and "no_stale_gate ts"
  shows "finalizer_count (run ts s) \<le> Suc (finalizer_count s)"
  using assms(1) _ assms(2) by (rule before_settle_run) simp

text \<open>
  Claim C1 does not hold of the code. In the listening session the eager end of the turn
  is confirmed and its request to the Gate is in flight when the definitive end of the
  turn arrives; the transcript is handed to the Finalizer. That call settles, which
  clears \<open>isProcessingRef\<close>. When the request to the Gate settles afterwards with "not
  wait", the code awaiting it acts on the result and asks the Finalizer a second time,
  for the eager candidate.
\<close>

theorem finalizer_requested_twice:
  "finalizer_requests (effects (run handed_off_trace listening_session)) = [js ''how do I check''] \<and>
   connectionState (run handed_off_trace listening_session) = Processing \<and>
   finalizer_requests (effects (run stale_gate_trace listening_session))
     = [js ''how do I check'', js ''how do I'']"
  by (simp add: stale_gate_trace_def handed_off_trace_def says_not_wait_def turn_message_def
        session_defs)

text \<open>
  Claim C2 does not hold of the code. The request to the Gate for the eager candidate is
  in flight when \<open>TurnResumed\<close> arrives: the session is connected and shows the longer
  transcript. The code awaiting the request does not look at the session again. On "not
  wait" it tears the session down and hands the superseded candidate to the Finalizer;
  on "wait" it clears the transcript on display and sets \<open>isExtendedWait\<close>.
\<close>

theorem superseded_decision_is_acted_on:
  "connectionState resumed_while_waiting = Connected \<and>
   liveTranscript resumed_while_waiting = js ''how do I check'' \<and>
   eagerEndTimeoutRef resumed_while_waiting = None \<and>
   connectionState (step (GateResolve 4 says_not_wait) resumed_while_waiting) = Processing \<and>
   torn_down (step (GateResolve 4 says_not_wait) resumed_while_waiting) \<and>
   finalizer_requests
     (emitted resumed_while_waiting (step (GateResolve 4 says_not_wait) resumed_while_waiting))
     = [js ''how do I''] \<and>
   liveTranscript (step (GateResolve 4 says_wait) resumed_while_waiting) = [] \<and>
   isExtendedWait (step (GateResolve 4 says_wait) resumed_while_waiting)"
  by (simp add: resumed_while_waiting_def says_not_wait_def says_wait_def turn_message_def
        session_defs)

end
